theory Spec2Isabelle
  imports Main
begin

section \<open>Data model of \<open>kademlia/network.py\<close>\<close>

text \<open>
  The module defines the class \<open>Server\<close>: the high level view of one node of the
  distributed hash table. Its methods call into modules of the package that are not part
  of the sources at hand (\<open>utils\<close>, \<open>storage\<close>, \<open>protocol\<close>, \<open>crawling\<close>,
  \<open>repository\<close>, \<open>domain\<close>). Every such call is kept as a call: the callee is a field of
  the record \<open>env\<close> below, so a theorem about \<open>Server\<close> holds for every behaviour of
  the callees.

  Python \<open>str\<close> and \<open>bytes\<close> are both lists of 8-bit characters here. \<open>digest\<close>
  accepts either, and the code passes both, so keys carry a tag.
\<close>

type_synonym bytes = string

datatype pykey = Str string | Bytes bytes

datatype error =
    UnauthorizedOperationException
  | JSONDecodeError
  | FileNotFoundError
  | DomainError string

text \<open>
  A node of the routing table: its identifier and its address. \<open>tuple(n)[-2:]\<close> of the
  source is the pair \<open>(ip, port)\<close>.
\<close>

record Node =
  node_id :: bytes
  ip :: string
  port :: int

text \<open>
  \<open>Value\<close> (module \<open>domain\<close>): one signed datum. The source reads
  \<open>new_value.authorization.sign\<close>; the other fields are those the specification lists
  (raw content, persist mode, signature and public key of the signer).
\<close>

record Authorization =
  pub_key :: string
  sign :: string

record Value =
  content :: string
  persist_mode :: string
  authorization :: Authorization

text \<open>
  What \<open>ValueFactory\<close> produces: a single \<open>Value\<close>, or a \<open>ControlledValue\<close> holding the
  values of several writers in order.
\<close>

datatype StoredValue = Single Value | ControlledValue "Value list"

text \<open>
  \<open>NodeMessage.of_params(dkey, data)\<close>: the envelope of a lookup result, the digest of
  the key and the payload or \<open>None\<close>. The optional relay signature of the envelope is
  not read by \<open>Server\<close> and is left out.
\<close>

record NodeMessage =
  dkey_of :: bytes
  data :: "string option"

definition of_params :: "bytes \<Rightarrow> string option \<Rightarrow> NodeMessage" where
  "of_params dkey d = \<lparr>dkey_of = dkey, data = d\<rparr>"

text \<open>
  Python truthiness of an optional string, as in \<open>if local_value:\<close> and
  \<open>if value_response.data:\<close>: \<open>None\<close> and the empty string are false.
\<close>

fun truthy :: "string option \<Rightarrow> bool" where
  "truthy None = False"
| "truthy (Some s) = (s \<noteq> [])"

text \<open>
  The result of \<open>json.loads\<close>. \<open>isinstance(parsed_val, list)\<close> holds of \<open>JArray\<close> only.
\<close>

datatype json =
    JNull
  | JBool bool
  | JNumber int
  | JString string
  | JArray "json list"
  | JObject "(string \<times> json) list"

text \<open>\<open>bytes.hex()\<close>: two lower-case hexadecimal digits per byte.\<close>

definition hex_digit :: "nat \<Rightarrow> char" where
  "hex_digit d = ''0123456789abcdef'' ! (d mod 16)"

definition hex :: "bytes \<Rightarrow> string" where
  "hex b = concat (map (\<lambda>c. [hex_digit (of_char c div 16), hex_digit (of_char c mod 16)]) b)"

subsection \<open>The server and its collaborators\<close>

text \<open>
  \<open>Server.__init__\<close> keeps \<open>ksize\<close>, \<open>alpha\<close>, the storage and the node. The storage
  is any object with the interface of \<open>ForgetfulStorage\<close>, so its type is a parameter.
  The transport, the protocol and the two timers start as \<open>None\<close>; the operations below
  are those of a server that listens, whose protocol and routing table belong to the
  outside.
\<close>

record 's Server =
  ksize :: int
  alpha :: int
  storage :: 's
  node :: bytes

text \<open>
  The collaborators. Everything outside the process (the routing table kept by the
  protocol, the peers, the ledger behind \<open>validatorRepository\<close>, the clock) is one state
  of type \<open>'n\<close>; a call that talks to the outside returns the next state with its
  result. The suspension of a coroutine at \<open>await\<close> is the hand-over of that state:
  requests of other peers served by the protocol while a call is suspended are not part
  of this model.

  \<^item> \<open>digest\<close>, \<open>digest256\<close>: SHA-1 and SHA-256 of \<open>kademlia.utils\<close>;
  \<^item> \<open>clock\<close>: the time the storage stamps a write with;
  \<^item> \<open>storage_get\<close>, \<open>storage_setitem\<close>, \<open>iteritemsOlderThan\<close>: the storage interface,
    at a given time; \<open>storage_get\<close> is a read, and what the storage has forgotten by
    age is a matter of the time it is asked at;
  \<^item> \<open>findNeighbors\<close>: \<open>self.protocol.router.findNeighbors(Node(id))\<close>;
    \<open>findNeighborsK\<close> is the call with an explicit count;
  \<^item> \<open>getRefreshIDs\<close>: \<open>self.protocol.getRefreshIDs()\<close>;
  \<^item> \<open>ping\<close>, \<open>callStore\<close>: the remote calls of the protocol;
  \<^item> \<open>node_crawl\<close>: \<open>NodeSpiderCrawl(protocol, node, nearest, ksize, alpha).find()\<close>;
    \<open>node_crawls\<close> is \<open>asyncio.gather\<close> over several of them;
  \<^item> \<open>value_crawl\<close>: the responses \<open>ValueSpiderCrawl(...)\<close> gathers from peers, given
    the answers it was seeded with;
  \<^item> \<open>get_by_id\<close>: \<open>validatorRepository.get_by_id\<close>, the authorization ledger: the
    record found, kept as a string, or \<open>None\<close>;
  \<^item> \<open>is_valid\<close>, \<open>str_Value\<close>, \<open>str_ControlledValue\<close>, \<open>create_from_string\<close>,
    \<open>create_from_value\<close>, \<open>validate_secure_value\<close>: module \<open>domain\<close>;
    \<open>validate_secure_value\<close> returns the exception it raises, if any;
  \<^item> \<open>json_loads\<close> (\<open>None\<close> where \<open>json.loads\<close> raises) and \<open>json_dumps\<close>.
\<close>

record ('n, 's) env =
  digest :: "pykey \<Rightarrow> bytes"
  digest256 :: "string \<Rightarrow> bytes"
  clock :: "'n \<Rightarrow> nat"
  storage_get :: "nat \<Rightarrow> 's \<Rightarrow> bytes \<Rightarrow> string option"
  storage_setitem :: "nat \<Rightarrow> 's \<Rightarrow> bytes \<Rightarrow> string \<Rightarrow> 's"
  iteritemsOlderThan :: "nat \<Rightarrow> 's \<Rightarrow> nat \<Rightarrow> (bytes \<times> string) list"
  findNeighbors :: "'n \<Rightarrow> bytes \<Rightarrow> Node list"
  findNeighborsK :: "'n \<Rightarrow> bytes \<Rightarrow> int \<Rightarrow> Node list"
  getRefreshIDs :: "'n \<Rightarrow> bytes list"
  ping :: "'n \<Rightarrow> string \<times> int \<Rightarrow> bytes \<Rightarrow> (bool \<times> bytes) \<times> 'n"
  callStore :: "'n \<Rightarrow> Node \<Rightarrow> bytes \<Rightarrow> string \<Rightarrow> bool \<times> 'n"
  node_crawl :: "'n \<Rightarrow> bytes \<Rightarrow> Node list \<Rightarrow> int \<Rightarrow> int \<Rightarrow> Node list \<times> 'n"
  node_crawls :: "'n \<Rightarrow> (bytes \<times> Node list) list \<Rightarrow> int \<Rightarrow> int \<Rightarrow> 'n"
  value_crawl ::
    "'n \<Rightarrow> bytes \<Rightarrow> Node list \<Rightarrow> int \<Rightarrow> int \<Rightarrow> NodeMessage list \<Rightarrow> NodeMessage list \<times> 'n"
  get_by_id :: "'n \<Rightarrow> string \<Rightarrow> string option \<times> 'n"
  is_valid :: "Value \<Rightarrow> bool"
  str_Value :: "Value \<Rightarrow> string"
  str_ControlledValue :: "Value list \<Rightarrow> string"
  create_from_string :: "bytes \<Rightarrow> string \<Rightarrow> error + StoredValue"
  create_from_value :: "Value \<Rightarrow> StoredValue"
  validate_secure_value :: "bytes \<Rightarrow> Value \<Rightarrow> Value \<Rightarrow> error option"
  json_loads :: "string \<Rightarrow> json option"
  json_dumps :: "json \<Rightarrow> string"

section \<open>Value model: majority vote and multi-writer append\<close>

text \<open>
  Modelled from the spec: \<open>select_most_common_response(key, responses)\<close> of module
  \<open>domain\<close>, which is not among the sources. The specification: it groups the responses
  by payload equality and returns the payload with the highest occurrence count; ties are
  broken by first-seen order among the tied group; it returns \<open>None\<close> if no response
  carries data.

  \<open>payloads\<close> keeps the payloads of the data-bearing responses in their order.
  \<open>pick\<close> walks them once with the best payload so far and replaces it only by a
  payload that occurs strictly more often, so the first-seen payload wins a tie.
\<close>

definition payloads :: "NodeMessage list \<Rightarrow> string list" where
  "payloads responses = List.map_filter data responses"

fun pick :: "'a list \<Rightarrow> 'a \<Rightarrow> 'a list \<Rightarrow> 'a" where
  "pick every best [] = best"
| "pick every best (x # xs) =
     pick every (if count_list every best < count_list every x then x else best) xs"

definition most_common :: "'a list \<Rightarrow> 'a option" where
  "most_common xs = (case xs of [] \<Rightarrow> None | x # rest \<Rightarrow> Some (pick xs x rest))"

definition select_most_common_response :: "bytes \<Rightarrow> NodeMessage list \<Rightarrow> string option" where
  "select_most_common_response dkey responses = most_common (payloads responses)"

text \<open>
  Modelled from the spec: \<open>ControlledValue.add_value\<close> of module \<open>domain\<close>. The
  specification: \<open>add_value\<close> appends a new valid \<open>Value\<close> without discarding prior ones.
\<close>

definition add_value :: "Value list \<Rightarrow> Value \<Rightarrow> StoredValue" where
  "add_value vals new_value = ControlledValue (vals @ [new_value])"

text \<open>\<open>str(result)\<close> for either shape of a stored value.\<close>

fun str_of :: "('n, 's) env \<Rightarrow> StoredValue \<Rightarrow> string" where
  "str_of env (Single v) = str_Value env v"
| "str_of env (ControlledValue vals) = str_ControlledValue env vals"

section \<open>Server operations\<close>

subsection \<open>\<open>get\<close>\<close>

text \<open>
  Modelled from the spec: \<open>ValueSpiderCrawl.find(found_values)\<close> of module \<open>crawling\<close>.
  The specification: the final answer is resolved from all data-bearing responses
  gathered, including an optional pre-seeded local answer, placed first. What the peers
  answer is \<open>value_crawl\<close> of the environment; \<open>find()\<close> without an argument is the crawl
  with no seed.
\<close>

definition ValueSpiderCrawl_find ::
  "('n, 's) env \<Rightarrow> bytes \<Rightarrow> Node list \<Rightarrow> int \<Rightarrow> int \<Rightarrow> NodeMessage list \<Rightarrow> 'n
     \<Rightarrow> NodeMessage list \<times> 'n" where
  "ValueSpiderCrawl_find env target nearest k a found_values n =
     (case value_crawl env n target nearest k a found_values of
        (gathered, n') \<Rightarrow> (found_values @ gathered, n'))"

text \<open>
  \<open>Server.get\<close> (lines 150 to 179). The envelope \<open>to_json()\<close> makes of the local value
  is the envelope itself here.
\<close>

definition get :: "('n, 's) env \<Rightarrow> 's Server \<Rightarrow> pykey \<Rightarrow> 'n \<Rightarrow> NodeMessage \<times> 'n" where
  "get env self k n =
     (let dkey = digest env k;
          nearest = findNeighbors env n dkey
      in if length nearest = 0 then (of_params dkey None, n)
         else
           let local_value = storage_get env (clock env n) (storage self) dkey
           in case (if truthy local_value
                    then ValueSpiderCrawl_find env dkey nearest (ksize self) (alpha self)
                           [of_params dkey local_value] n
                    else ValueSpiderCrawl_find env dkey nearest (ksize self) (alpha self) [] n) of
                (responses, n') \<Rightarrow>
                  (of_params dkey (select_most_common_response dkey responses), n'))"

subsection \<open>\<open>set\<close>\<close>

text \<open>\<open>Server._get_dtl_record\<close> (lines 223 to 227).\<close>

definition get_dtl_record ::
  "('n, 's) env \<Rightarrow> bytes \<Rightarrow> Value \<Rightarrow> 'n \<Rightarrow> string option \<times> 'n" where
  "get_dtl_record env dkey new_value n =
     (let val_sign = sign (authorization new_value);
          value_hash = hex (digest256 env (hex dkey @ val_sign))
      in get_by_id env n value_hash)"

text \<open>
  \<open>Server._call_remote_persist\<close> (lines 229 to 250). \<open>callStore_all\<close> is
  \<open>asyncio.gather\<close> over the store calls: one result per node, in the order of the nodes.
\<close>

fun callStore_all ::
  "('n, 's) env \<Rightarrow> Node list \<Rightarrow> bytes \<Rightarrow> string \<Rightarrow> 'n \<Rightarrow> bool list \<times> 'n" where
  "callStore_all env [] dkey v n = ([], n)"
| "callStore_all env (p # ps) dkey v n =
     (case callStore env n p dkey v of
        (r, n') \<Rightarrow> (case callStore_all env ps dkey v n' of (rs, n'') \<Rightarrow> (r # rs, n'')))"

definition call_remote_persist ::
  "('n, 's) env \<Rightarrow> 's Server \<Rightarrow> pykey \<Rightarrow> string \<Rightarrow> 'n \<Rightarrow> bool \<times> 'n" where
  "call_remote_persist env self k v n =
     (let dkey = digest env k;
          nearest = findNeighbors env n dkey
      in if length nearest = 0 then (False, n)
         else case node_crawl env n dkey nearest (ksize self) (alpha self) of
                (nodes, n1) \<Rightarrow>
                  (case callStore_all env nodes dkey v n1 of
                     (ds, n2) \<Rightarrow> (list_ex (\<lambda>r. r) ds, n2)))"

text \<open>
  The conflict rule of \<open>_persist_locally\<close> (lines 208 to 216): what \<open>result\<close> is bound to,
  or the exception raised on the way, from the payload \<open>value_response.data\<close>.
\<close>

definition merge_result ::
  "('n, 's) env \<Rightarrow> bytes \<Rightarrow> Value \<Rightarrow> string option \<Rightarrow> error + StoredValue" where
  "merge_result env dkey new_value d =
     (if truthy d then
        (case create_from_string env dkey (the d) of
           Inl e \<Rightarrow> Inl e
         | Inr (ControlledValue vals) \<Rightarrow> Inr (add_value vals new_value)
         | Inr (Single stored_value) \<Rightarrow>
             (case validate_secure_value env dkey new_value stored_value of
                Some e \<Rightarrow> Inl e
              | None \<Rightarrow> Inr (Single new_value)))
      else Inr (create_from_value env new_value))"

text \<open>
  \<open>Server._persist_locally\<close> (lines 194 to 221). Lines 205 and 218 test the answer of
  the ledger with \<open>if not\<close>: \<open>None\<close> and an empty record are false.
\<close>

definition persist_locally ::
  "('n, 's) env \<Rightarrow> 's Server \<Rightarrow> pykey \<Rightarrow> Value \<Rightarrow> 'n \<Rightarrow> (error + unit) \<times> 's Server \<times> 'n" where
  "persist_locally env self k new_value n =
     (let dkey = digest env k
      in case get env self k n of
           (value_response, n1) \<Rightarrow>
             (case get_dtl_record env dkey new_value n1 of
                (r1, n2) \<Rightarrow>
                  if \<not> truthy r1 then (Inl UnauthorizedOperationException, self, n2)
                  else
                    (case merge_result env dkey new_value (data value_response) of
                       Inl e \<Rightarrow> (Inl e, self, n2)
                     | Inr result \<Rightarrow>
                         (case get_dtl_record env dkey new_value n2 of
                            (r2, n3) \<Rightarrow>
                              if \<not> truthy r2
                              then (Inl UnauthorizedOperationException, self, n3)
                              else
                                (Inr (),
                                 self\<lparr>storage :=
                                   storage_setitem env (clock env n3) (storage self) dkey
                                     (str_of env result)\<rparr>,
                                 n3)))))"

text \<open>\<open>Server.set\<close> (lines 181 to 192).\<close>

definition set' ::
  "('n, 's) env \<Rightarrow> 's Server \<Rightarrow> pykey \<Rightarrow> Value \<Rightarrow> 'n \<Rightarrow> (error + bool) \<times> 's Server \<times> 'n" where
  "set' env self k new_value n =
     (if \<not> is_valid env new_value then (Inl UnauthorizedOperationException, self, n)
      else case persist_locally env self k new_value n of
             (Inl e, self', n1) \<Rightarrow> (Inl e, self', n1)
           | (Inr u, self', n1) \<Rightarrow>
               (case call_remote_persist env self' k (str_Value env new_value) n1 of
                  (accepted, n2) \<Rightarrow> (Inr accepted, self', n2)))"

subsection \<open>Periodic refresh\<close>

text \<open>
  Lines 106 to 111 of \<open>_refresh_table\<close>: the values to republish for one stored value.
  \<open>json.loads\<close> raises on a string that is not JSON.
\<close>

definition values_to_republish :: "('n, 's) env \<Rightarrow> string \<Rightarrow> error + string list" where
  "values_to_republish env v =
     (case json_loads env v of
        None \<Rightarrow> Inl JSONDecodeError
      | Some parsed_val \<Rightarrow>
          (case parsed_val of
             JArray elems \<Rightarrow> Inr (map (json_dumps env) elems)
           | _ \<Rightarrow> Inr [v]))"

text \<open>
  Lines 113 and 114: one \<open>_call_remote_persist(dkey, val)\<close> after the other. The key
  given is the stored digest, a \<open>bytes\<close> object, and \<open>_call_remote_persist\<close> digests its
  key again.
\<close>

fun republish_values ::
  "('n, 's) env \<Rightarrow> 's Server \<Rightarrow> bytes \<Rightarrow> string list \<Rightarrow> 'n \<Rightarrow> 'n" where
  "republish_values env self dkey [] n = n"
| "republish_values env self dkey (v # vs) n =
     republish_values env self dkey vs (snd (call_remote_persist env self (Bytes dkey) v n))"

text \<open>Lines 105 to 114: the loop over the entries older than one hour.\<close>

fun republish ::
  "('n, 's) env \<Rightarrow> 's Server \<Rightarrow> (bytes \<times> string) list \<Rightarrow> 'n \<Rightarrow> (error + unit) \<times> 'n" where
  "republish env self [] n = (Inr (), n)"
| "republish env self ((dkey, v) # items) n =
     (case values_to_republish env v of
        Inl e \<Rightarrow> (Inl e, n)
      | Inr vals \<Rightarrow> republish env self items (republish_values env self dkey vals n))"

text \<open>
  \<open>Server._refresh_table\<close> (lines 88 to 114). The crawls of lines 93 to 102 are prepared
  one after the other and awaited together; the entries to republish are those the
  storage yields when the loop starts.
\<close>

definition refresh_table ::
  "('n, 's) env \<Rightarrow> 's Server \<Rightarrow> 'n \<Rightarrow> (error + unit) \<times> 'n" where
  "refresh_table env self n =
     (let ds = map (\<lambda>i. (i, findNeighborsK env n i (alpha self))) (getRefreshIDs env n);
          n1 = node_crawls env n ds (ksize self) (alpha self)
      in republish env self (iteritemsOlderThan env (clock env n1) (storage self) 3600) n1)"

text \<open>
  The republish calls as the specification words them: a stored value that parses as a
  JSON list gives one call per element, each element serialized again; any other stored
  value gives one call with the value as it is.
\<close>

definition spec_republish_calls ::
  "('n, 's) env \<Rightarrow> (bytes \<times> string) list \<Rightarrow> (bytes \<times> string) list" where
  "spec_republish_calls env items =
     concat (map (\<lambda>(dkey, v).
       case json_loads env v of
         Some (JArray elems) \<Rightarrow> map (\<lambda>e. (dkey, json_dumps env e)) elems
       | _ \<Rightarrow> [(dkey, v)]) items)"

text \<open>A sequence of calls \<open>_call_remote_persist(dkey, val)\<close>, run in order.\<close>

fun remote_persist_each ::
  "('n, 's) env \<Rightarrow> 's Server \<Rightarrow> (bytes \<times> string) list \<Rightarrow> 'n \<Rightarrow> 'n" where
  "remote_persist_each env self [] n = n"
| "remote_persist_each env self ((dkey, v) # calls) n =
     remote_persist_each env self calls (snd (call_remote_persist env self (Bytes dkey) v n))"

subsection \<open>Bootstrap and the state snapshot\<close>

text \<open>\<open>Server.bootstrappableNeighbors\<close> (lines 116 to 127).\<close>

definition bootstrappableNeighbors ::
  "('n, 's) env \<Rightarrow> 's Server \<Rightarrow> 'n \<Rightarrow> (string \<times> int) list" where
  "bootstrappableNeighbors env self n =
     map (\<lambda>p. (ip p, port p)) (findNeighbors env n (node self))"

text \<open>\<open>Server.bootstrap_node\<close> (lines 146 to 148) and \<open>asyncio.gather\<close> over it.\<close>

definition bootstrap_node ::
  "('n, 's) env \<Rightarrow> 's Server \<Rightarrow> string \<times> int \<Rightarrow> 'n \<Rightarrow> Node option \<times> 'n" where
  "bootstrap_node env self addr n =
     (case ping env n addr (node self) of
        (result, n') \<Rightarrow>
          (if fst result
           then Some \<lparr>node_id = snd result, ip = fst addr, port = snd addr\<rparr>
           else None, n'))"

fun bootstrap_nodes ::
  "('n, 's) env \<Rightarrow> 's Server \<Rightarrow> (string \<times> int) list \<Rightarrow> 'n \<Rightarrow> Node option list \<times> 'n" where
  "bootstrap_nodes env self [] n = ([], n)"
| "bootstrap_nodes env self (addr # addrs) n =
     (case bootstrap_node env self addr n of
        (r, n') \<Rightarrow> (case bootstrap_nodes env self addrs n' of (rs, n'') \<Rightarrow> (r # rs, n'')))"

text \<open>
  \<open>Server.bootstrap\<close> (lines 129 to 144). It is a coroutine function: the value
  \<open>bootstrap env self addrs\<close> is the coroutine object, and awaiting it is applying it to
  the state of the outside.
\<close>

definition bootstrap ::
  "('n, 's) env \<Rightarrow> 's Server \<Rightarrow> (string \<times> int) list \<Rightarrow> 'n \<Rightarrow> Node list \<times> 'n" where
  "bootstrap env self addrs n =
     (case bootstrap_nodes env self addrs n of
        (gathered, n1) \<Rightarrow>
          (let nodes = List.map_filter (\<lambda>x. x) gathered
           in node_crawl env n1 (node self) nodes (ksize self) (alpha self)))"

text \<open>
  The dictionary \<open>saveState\<close> pickles. A file holds the dictionary itself: what
  \<open>pickle.load\<close> returns is what \<open>pickle.dump\<close> was given.
\<close>

record Snapshot =
  snap_ksize :: int
  snap_alpha :: int
  snap_id :: bytes
  snap_neighbors :: "(string \<times> int) list"

type_synonym files = "string \<Rightarrow> Snapshot option"

text \<open>\<open>Server.saveState\<close> (lines 252 to 268).\<close>

definition saveState ::
  "('n, 's) env \<Rightarrow> 's Server \<Rightarrow> string \<Rightarrow> 'n \<Rightarrow> files \<Rightarrow> files" where
  "saveState env self fname n fs =
     (let d = \<lparr>snap_ksize = ksize self, snap_alpha = alpha self, snap_id = node self,
                snap_neighbors = bootstrappableNeighbors env self n\<rparr>
      in if length (snap_neighbors d) = 0 then fs else fs(fname \<mapsto> d))"

text \<open>
  \<open>Server.__init__\<close> (lines 34 to 52) as \<open>loadState\<close> calls it, without a storage:
  \<open>fresh\<close> is \<open>ForgetfulStorage()\<close> and \<open>rnd\<close> is \<open>digest(random.getrandbits(255))\<close>,
  taken when the identifier given is empty.
\<close>

definition Server_init :: "int \<Rightarrow> int \<Rightarrow> bytes \<Rightarrow> 's \<Rightarrow> bytes \<Rightarrow> 's Server" where
  "Server_init k a i fresh rnd =
     \<lparr>ksize = k, alpha = a, storage = fresh, node = (if i \<noteq> [] then i else rnd)\<rparr>"

text \<open>
  \<open>Server.loadState\<close> (lines 270 to 282). Line 281 calls \<open>s.bootstrap(...)\<close> and drops
  the coroutine object it returns: nothing awaits it and nothing hands it to the event
  loop.
\<close>

definition loadState ::
  "('n, 's) env \<Rightarrow> 's \<Rightarrow> bytes \<Rightarrow> string \<Rightarrow> files \<Rightarrow> 'n \<Rightarrow> (error + 's Server) \<times> 'n" where
  "loadState env fresh rnd fname fs n =
     (case fs fname of
        None \<Rightarrow> (Inl FileNotFoundError, n)
      | Some d \<Rightarrow>
          (let s = Server_init (snap_ksize d) (snap_alpha d) (snap_id d) fresh rnd;
               dropped = (if length (snap_neighbors d) > 0
                          then Some (bootstrap env s (snap_neighbors d)) else None)
           in (Inr s, n)))"

section \<open>A concrete environment\<close>

text \<open>
  One environment to run the operations on concrete inputs. The outside is a record: the
  time, the neighbours the routing table yields, the answers the ledger will give (one
  per query, \<open>None\<close> once they are used up), whether peers accept a store call, what the
  peers answer to a value lookup, and the log of the remote calls made so far.
\<close>

datatype event =
    Ping "string \<times> int"
  | Store bytes bytes string
  | Lookup bytes
  | Query string

record World =
  now :: nat
  peers :: "Node list"
  ledger :: "string option list"
  accepting :: bool
  answers :: "NodeMessage list"
  calls :: "event list"

text \<open>
  The storage of the concrete environment: entries in the order of their last write,
  each with the time of that write.
\<close>

type_synonym test_storage = "(bytes \<times> nat \<times> string) list"

definition test_get :: "nat \<Rightarrow> test_storage \<Rightarrow> bytes \<Rightarrow> string option" where
  "test_get t st k = map_option snd (map_of st k)"

definition test_setitem :: "nat \<Rightarrow> test_storage \<Rightarrow> bytes \<Rightarrow> string \<Rightarrow> test_storage" where
  "test_setitem t st k v = filter (\<lambda>e. fst e \<noteq> k) st @ [(k, t, v)]"

definition test_older :: "nat \<Rightarrow> test_storage \<Rightarrow> nat \<Rightarrow> (bytes \<times> string) list" where
  "test_older t st age =
     map (\<lambda>e. (fst e, snd (snd e))) (filter (\<lambda>e. fst (snd e) + age \<le> t) st)"

definition alice :: Authorization where
  "alice = \<lparr>pub_key = ''alice'', sign = ''sa''\<rparr>"

definition bob :: Authorization where
  "bob = \<lparr>pub_key = ''bob'', sign = ''sb''\<rparr>"

definition v1 :: Value where
  "v1 = \<lparr>content = ''v1'', persist_mode = ''controlled'', authorization = alice\<rparr>"

definition v2 :: Value where
  "v2 = \<lparr>content = ''v2'', persist_mode = ''controlled'', authorization = bob\<rparr>"

definition v1b :: Value where
  "v1b = \<lparr>content = ''v1b'', persist_mode = ''secured'', authorization = alice\<rparr>"

definition unsigned :: Value where
  "unsigned = \<lparr>content = ''v3'', persist_mode = ''secured'',
                authorization = \<lparr>pub_key = ''eve'', sign = []\<rparr>\<rparr>"

definition peer1 :: Node where
  "peer1 = \<lparr>node_id = ''p1'', ip = ''10.0.0.1'', port = 8468\<rparr>"

definition test_env :: "(World, test_storage) env" where
  "test_env =
     \<lparr>digest = (\<lambda>k. case k of Str s \<Rightarrow> ''#'' @ s | Bytes b \<Rightarrow> ''#'' @ b),
      digest256 = (\<lambda>s. ''#'' @ s),
      clock = now,
      storage_get = test_get,
      storage_setitem = test_setitem,
      iteritemsOlderThan = test_older,
      findNeighbors = (\<lambda>w i. peers w),
      findNeighborsK = (\<lambda>w i c. take (nat c) (peers w)),
      getRefreshIDs = (\<lambda>w. []),
      ping = (\<lambda>w a i. ((True, ''p1''), w\<lparr>calls := calls w @ [Ping a]\<rparr>)),
      callStore = (\<lambda>w p k v. (accepting w, w\<lparr>calls := calls w @ [Store (node_id p) k v]\<rparr>)),
      node_crawl = (\<lambda>w i nearest k a. (nearest, w)),
      node_crawls = (\<lambda>w ds k a. w),
      value_crawl = (\<lambda>w i nearest k a seed. (answers w, w\<lparr>calls := calls w @ [Lookup i]\<rparr>)),
      get_by_id = (\<lambda>w h. (case ledger w of [] \<Rightarrow> None | r # rs \<Rightarrow> r,
                            w\<lparr>ledger := tl (ledger w), calls := calls w @ [Query h]\<rparr>)),
      is_valid = (\<lambda>v. sign (authorization v) \<noteq> []),
      str_Value = content,
      str_ControlledValue = (\<lambda>vals. ''['' @ concat (map (\<lambda>v. content v @ '';'') vals) @ '']''),
      create_from_string = (\<lambda>k s. if s = ''[v1;]'' then Inr (ControlledValue [v1])
                                   else if s = ''v1'' then Inr (Single v1)
                                   else Inl (DomainError s)),
      create_from_value = (\<lambda>v. if persist_mode v = ''controlled''
                                then ControlledValue [v] else Single v),
      validate_secure_value = (\<lambda>k new_value stored_value.
                                 if pub_key (authorization new_value)
                                      = pub_key (authorization stored_value)
                                 then None else Some UnauthorizedOperationException),
      json_loads = (\<lambda>s. if s = ''[1, 2]'' then Some (JArray [JNumber 1, JNumber 2])
                         else if s = ''7'' then Some (JNumber 7) else None),
      json_dumps = (\<lambda>j. case j of JNumber i \<Rightarrow> (if i = 1 then ''1'' else ''2'')
                                  | _ \<Rightarrow> ''null'')\<rparr>"

definition test_server :: "test_storage \<Rightarrow> test_storage Server" where
  "test_server st = \<lparr>ksize = 20, alpha = 3, storage = st, node = ''me''\<rparr>"

text \<open>An outside with no neighbours, and one with the neighbour \<open>peer1\<close>.\<close>

definition alone :: World where
  "alone = \<lparr>now = 5000, peers = [], ledger = [Some ''permit'', Some ''permit''],
            accepting = True, answers = [], calls = []\<rparr>"

definition joined :: World where
  "joined = alone\<lparr>peers := [peer1]\<rparr>"

section \<open>Majority vote\<close>

lemma pick_ge: "count_list every b \<le> count_list every (pick every b xs)"
proof (induction xs arbitrary: b)
  case Nil
  show ?case by simp
next
  case (Cons x xs)
  show ?case
  proof (cases "count_list every b < count_list every x")
    case True
    have "count_list every x \<le> count_list every (pick every x xs)" by (rule Cons.IH)
    with True show ?thesis by simp
  next
    case False
    with Cons.IH [of b] show ?thesis by simp
  qed
qed

lemma pick_ge_all: "q \<in> set xs \<Longrightarrow> count_list every q \<le> count_list every (pick every b xs)"
proof (induction xs arbitrary: b)
  case Nil
  then show ?case by simp
next
  case (Cons x xs)
  let ?b = "if count_list every b < count_list every x then x else b"
  show ?case
  proof (cases "q = x")
    case True
    have "count_list every x \<le> count_list every ?b" by simp
    also have "\<dots> \<le> count_list every (pick every ?b xs)" by (rule pick_ge)
    finally show ?thesis using True by simp
  next
    case False
    with Cons.prems have "q \<in> set xs" by simp
    then have "count_list every q \<le> count_list every (pick every ?b xs)" by (rule Cons.IH)
    then show ?thesis by simp
  qed
qed

lemma pick_in: "pick every b xs \<in> set (b # xs)"
  by (induction xs arbitrary: b) auto

text \<open>
  Whatever \<open>pick\<close> prefers to the payload it started with occurs strictly more often
  than it, and than every payload met before.
\<close>

lemma pick_first:
  "pick every b xs \<noteq> b \<Longrightarrow>
     count_list every b < count_list every (pick every b xs)
     \<and> (\<forall>q \<in> set (takeWhile (\<lambda>x. x \<noteq> pick every b xs) xs).
           count_list every q < count_list every (pick every b xs))"
proof (induction xs arbitrary: b)
  case Nil
  then show ?case by simp
next
  case (Cons x xs)
  show ?case
  proof (cases "count_list every b < count_list every x")
    case True
    then have r: "pick every b (x # xs) = pick every x xs" by simp
    show ?thesis
    proof (cases "pick every x xs = x")
      case True
      with r \<open>count_list every b < count_list every x\<close> show ?thesis by simp
    next
      case False
      from Cons.IH [OF False] r \<open>count_list every b < count_list every x\<close> False
      show ?thesis by auto
    qed
  next
    case False
    then have r: "pick every b (x # xs) = pick every b xs" by simp
    with Cons.prems have "pick every b xs \<noteq> b" by simp
    from Cons.IH [OF this] r False show ?thesis by auto
  qed
qed

lemma most_common_None: "most_common xs = None \<longleftrightarrow> xs = []"
  by (simp add: most_common_def split: list.splits)

lemma most_common_Some:
  assumes "most_common xs = Some p"
  shows "p \<in> set xs"
    and "count_list xs q \<le> count_list xs p"
    and "\<forall>q \<in> set (takeWhile (\<lambda>x. x \<noteq> p) xs). count_list xs q < count_list xs p"
proof -
  from assms obtain x rest where xs: "xs = x # rest" and p: "p = pick xs x rest"
    by (auto simp: most_common_def split: list.splits)
  from pick_in [of xs x rest] xs p show "p \<in> set xs" by simp
  show "count_list xs q \<le> count_list xs p"
  proof (cases "q \<in> set xs")
    case True
    then have "q = x \<or> q \<in> set rest" using xs by auto
    then show ?thesis using pick_ge [of xs x rest] pick_ge_all [of q rest xs x] p by auto
  next
    case False
    then have "count_list xs q = 0" by (simp add: count_list_0_iff)
    then show ?thesis by simp
  qed
  show "\<forall>q \<in> set (takeWhile (\<lambda>x. x \<noteq> p) xs). count_list xs q < count_list xs p"
  proof (cases "p = x")
    case True
    with xs show ?thesis by simp
  next
    case False
    with p have "pick xs x rest \<noteq> x" by simp
    from pick_first [OF this] p xs False show ?thesis by auto
  qed
qed

lemma payloads_Nil: "payloads rs = [] \<longleftrightarrow> (\<forall>r \<in> set rs. data r = None)"
  by (induction rs) (auto simp: payloads_def List.map_filter_def)

text \<open>
  Claim C3. \<open>select_most_common_response\<close> is \<open>None\<close> on the empty list, and is \<open>None\<close>
  exactly when no response carries data. Otherwise it returns a payload of a data-bearing
  response such that no payload occurs more often, and such that every payload seen
  before its first occurrence occurs strictly less often: among the payloads with the
  highest count the first-seen one wins. For the responses \<open>[A, A, A, B]\<close> it returns
  \<open>A\<close>.
\<close>

theorem select_most_common_response_majority:
  "select_most_common_response dkey [] = None
   \<and> (select_most_common_response dkey responses = None
        \<longleftrightarrow> (\<forall>r \<in> set responses. data r = None))
   \<and> (\<forall>p. select_most_common_response dkey responses = Some p \<longrightarrow>
          p \<in> set (payloads responses)
          \<and> (\<forall>q. count_list (payloads responses) q \<le> count_list (payloads responses) p)
          \<and> (\<forall>q \<in> set (takeWhile (\<lambda>x. x \<noteq> p) (payloads responses)).
                count_list (payloads responses) q < count_list (payloads responses) p))
   \<and> select_most_common_response dkey
        [of_params dkey (Some a), of_params dkey (Some a), of_params dkey (Some a),
         of_params dkey (Some b)] = Some a"
proof -
  have 1: "select_most_common_response dkey [] = None"
    by (simp add: select_most_common_response_def payloads_def most_common_def
        List.map_filter_def)
  have 2: "select_most_common_response dkey responses = None
        \<longleftrightarrow> (\<forall>r \<in> set responses. data r = None)"
    by (simp add: select_most_common_response_def most_common_None payloads_Nil)
  have 3: "\<forall>p. select_most_common_response dkey responses = Some p \<longrightarrow>
          p \<in> set (payloads responses)
          \<and> (\<forall>q. count_list (payloads responses) q \<le> count_list (payloads responses) p)
          \<and> (\<forall>q \<in> set (takeWhile (\<lambda>x. x \<noteq> p) (payloads responses)).
                count_list (payloads responses) q < count_list (payloads responses) p)"
    unfolding select_most_common_response_def
    using most_common_Some [of "payloads responses"] by blast
  have 4: "select_most_common_response dkey
        [of_params dkey (Some a), of_params dkey (Some a), of_params dkey (Some a),
         of_params dkey (Some b)] = Some a"
    by (simp add: select_most_common_response_def payloads_def most_common_def
        List.map_filter_def of_params_def)
  from 1 2 3 4 show ?thesis by blast
qed

text \<open>
  A run with a tie: \<open>A\<close> and \<open>B\<close> both occur twice, one response carries no data, and
  \<open>A\<close> was seen first.
\<close>

theorem select_most_common_response_majority_witness:
  "select_most_common_response ''#k''
     [of_params ''#k'' (Some ''A''), of_params ''#k'' (Some ''B''),
      of_params ''#k'' (Some ''B''), of_params ''#k'' None,
      of_params ''#k'' (Some ''A'')] = Some ''A''
   \<and> ''A'' \<in> set (payloads
        [of_params ''#k'' (Some ''A''), of_params ''#k'' (Some ''B''),
         of_params ''#k'' (Some ''B''), of_params ''#k'' None,
         of_params ''#k'' (Some ''A'')])
   \<and> count_list (payloads
        [of_params ''#k'' (Some ''A''), of_params ''#k'' (Some ''B''),
         of_params ''#k'' (Some ''B''), of_params ''#k'' None,
         of_params ''#k'' (Some ''A'')]) ''B''
       \<le> count_list (payloads
        [of_params ''#k'' (Some ''A''), of_params ''#k'' (Some ''B''),
         of_params ''#k'' (Some ''B''), of_params ''#k'' None,
         of_params ''#k'' (Some ''A'')]) ''A''"
proof -
  let ?rs = "[of_params ''#k'' (Some ''A''), of_params ''#k'' (Some ''B''),
      of_params ''#k'' (Some ''B''), of_params ''#k'' None,
      of_params ''#k'' (Some ''A'')]"
  have e: "select_most_common_response ''#k'' ?rs = Some ''A''"
    by (simp add: select_most_common_response_def payloads_def most_common_def
        List.map_filter_def of_params_def)
  from select_most_common_response_majority [of "''#k''" ?rs] e
  have "''A'' \<in> set (payloads ?rs)
        \<and> (\<forall>q. count_list (payloads ?rs) q \<le> count_list (payloads ?rs) ''A'')"
    by blast
  with e show ?thesis by blast
qed

section \<open>Lookups without neighbours\<close>

text \<open>
  Claim C5. If the routing table yields no neighbour for the digest of the key,
  \<open>get(key)\<close> returns the envelope of that digest with no data, and the outside is as
  it was: no lookup was issued. \<open>get\<close> has no branch that raises.
\<close>

theorem get_without_neighbors:
  assumes "findNeighbors env n (digest env k) = []"
  shows "get env self k n = (of_params (digest env k) None, n)"
  using assms by (simp add: get_def)

theorem get_without_neighbors_witness:
  "findNeighbors test_env alone (digest test_env (Str ''user:42'')) = []
   \<and> get test_env (test_server []) (Str ''user:42'') alone
       = (of_params ''#user:42'' None, alone)"
  using get_without_neighbors [of test_env alone "Str ''user:42''" "test_server []"]
  by (simp add: test_env_def alone_def)

section \<open>Writes\<close>

subsection \<open>The paths through \<open>_persist_locally\<close>\<close>

lemma persist_locally_first_absent:
  assumes "get env self k n = (value_response, n1)"
      and "get_dtl_record env (digest env k) new_value n1 = (r1, n2)"
      and "\<not> truthy r1"
  shows "persist_locally env self k new_value n = (Inl UnauthorizedOperationException, self, n2)"
  using assms by (simp add: persist_locally_def)

lemma persist_locally_second_absent:
  assumes "get env self k n = (value_response, n1)"
      and "get_dtl_record env (digest env k) new_value n1 = (r1, n2)"
      and "merge_result env (digest env k) new_value (data value_response) = Inr result"
      and "get_dtl_record env (digest env k) new_value n2 = (r2, n3)"
      and "truthy r1"
      and "\<not> truthy r2"
  shows "persist_locally env self k new_value n = (Inl UnauthorizedOperationException, self, n3)"
  using assms by (simp add: persist_locally_def)

lemma persist_locally_merge_raises:
  assumes "get env self k n = (value_response, n1)"
      and "get_dtl_record env (digest env k) new_value n1 = (r1, n2)"
      and "merge_result env (digest env k) new_value (data value_response) = Inl e"
      and "truthy r1"
  shows "persist_locally env self k new_value n = (Inl e, self, n2)"
  using assms by (simp add: persist_locally_def)

lemma persist_locally_writes:
  assumes "get env self k n = (value_response, n1)"
      and "get_dtl_record env (digest env k) new_value n1 = (r1, n2)"
      and "merge_result env (digest env k) new_value (data value_response) = Inr result"
      and "get_dtl_record env (digest env k) new_value n2 = (r2, n3)"
      and "truthy r1"
      and "truthy r2"
  shows "persist_locally env self k new_value n
           = (Inr (),
              self\<lparr>storage := storage_setitem env (clock env n3) (storage self) (digest env k)
                                 (str_of env result)\<rparr>,
              n3)"
  using assms by (simp add: persist_locally_def)

subsection \<open>The concrete environment, evaluated\<close>

lemma test_digest: "digest test_env (Str s) = ''#'' @ s" "digest test_env (Bytes s) = ''#'' @ s"
  by (simp_all add: test_env_def)

lemma test_get_alone:
  "peers w = [] \<Longrightarrow> get test_env self (Str s) w = (of_params (''#'' @ s) None, w)"
  by (simp add: get_def test_env_def)

lemma test_get_joined:
  "peers w \<noteq> [] \<Longrightarrow> test_get (now w) (storage self) (''#'' @ s) = None \<Longrightarrow>
   get test_env self (Str s) w
     = (of_params (''#'' @ s) (select_most_common_response (''#'' @ s) (answers w)),
        w\<lparr>calls := calls w @ [Lookup (''#'' @ s)]\<rparr>)"
  by (simp add: get_def test_env_def ValueSpiderCrawl_find_def Let_def)

lemma test_dtl:
  "get_dtl_record test_env dkey v w
     = (case ledger w of [] \<Rightarrow> None | r # rs \<Rightarrow> r,
        w\<lparr>ledger := tl (ledger w),
          calls := calls w @ [Query (hex (''#'' @ hex dkey @ sign (authorization v)))]\<rparr>)"
  by (simp add: get_dtl_record_def test_env_def)

lemma test_valid: "is_valid test_env v = (sign (authorization v) \<noteq> [])"
  by (simp add: test_env_def)

subsection \<open>Authorization gating\<close>

text \<open>
  Claim C1. For a value whose own signature is valid, \<open>set(key, value)\<close> raises
  \<open>UnauthorizedOperationException\<close> whenever the ledger answers \<open>None\<close> at the check
  before the merge, or the merge yields a result and the ledger answers \<open>None\<close> at the
  check after it. Both checks query the ledger by the hexadecimal form of
  \<open>digest256(hex(digest(key)) + signature)\<close>. \<open>r1\<close> is the answer at the first check.
\<close>

theorem set_unauthorized_when_ledger_absent:
  assumes "is_valid env new_value"
      and "get env self k n = (value_response, n1)"
      and "get_dtl_record env (digest env k) new_value n1 = (r1, n2)"
      and "r1 = None \<or>
           (merge_result env (digest env k) new_value (data value_response) = Inr result
            \<and> fst (get_dtl_record env (digest env k) new_value n2) = None)"
  shows "fst (set' env self k new_value n) = Inl UnauthorizedOperationException
         \<and> get_dtl_record env (digest env k) new_value n1
             = get_by_id env n1
                 (hex (digest256 env (hex (digest env k) @ sign (authorization new_value))))"
proof (cases "truthy r1")
  case False
  from persist_locally_first_absent [OF assms(2,3) False]
  have "persist_locally env self k new_value n
      = (Inl UnauthorizedOperationException, self, n2)" .
  with assms(1) show ?thesis by (simp add: set'_def get_dtl_record_def)
next
  case True
  then have "r1 \<noteq> None" by (cases r1) auto
  with assms(4) obtain n3 where
    m: "merge_result env (digest env k) new_value (data value_response) = Inr result" and
    s: "get_dtl_record env (digest env k) new_value n2 = (None, n3)"
    by (cases "get_dtl_record env (digest env k) new_value n2") auto
  have "\<not> truthy None" by simp
  from persist_locally_second_absent [OF assms(2,3) m s True this]
  have "persist_locally env self k new_value n
      = (Inl UnauthorizedOperationException, self, n3)" .
  with assms(1) show ?thesis by (simp add: set'_def get_dtl_record_def)
qed

text \<open>
  Two runs with a validly signed value: the ledger has no record at the first check; the
  ledger has a record at the first check and none at the second.
\<close>

theorem set_unauthorized_when_ledger_absent_witness:
  "is_valid test_env v1
   \<and> fst (set' test_env (test_server []) (Str ''k'') v1 (alone\<lparr>ledger := [None]\<rparr>))
       = Inl UnauthorizedOperationException
   \<and> fst (set' test_env (test_server []) (Str ''k'') v1
            (alone\<lparr>ledger := [Some ''permit'', None]\<rparr>))
       = Inl UnauthorizedOperationException"
proof -
  let ?s = "test_server []"
  let ?w = "alone\<lparr>ledger := [None]\<rparr>"
  let ?u = "alone\<lparr>ledger := [Some ''permit'', None]\<rparr>"
  have v: "is_valid test_env v1"
    by (simp add: test_valid v1_def alice_def)
  have g: "get test_env ?s (Str ''k'') ?w = (of_params ''#k'' None, ?w)"
    using test_get_alone [of ?w ?s "''k''"] by (simp add: alone_def)
  have d: "get_dtl_record test_env (digest test_env (Str ''k'')) v1 ?w
             = (None, snd (get_dtl_record test_env (digest test_env (Str ''k'')) v1 ?w))"
    by (simp add: test_dtl test_digest)
  have 1: "fst (set' test_env ?s (Str ''k'') v1 ?w) = Inl UnauthorizedOperationException"
    using set_unauthorized_when_ledger_absent [OF v g d] by simp
  have g': "get test_env ?s (Str ''k'') ?u = (of_params ''#k'' None, ?u)"
    using test_get_alone [of ?u ?s "''k''"] by (simp add: alone_def)
  have d': "get_dtl_record test_env (digest test_env (Str ''k'')) v1 ?u
             = (Some ''permit'', snd (get_dtl_record test_env (digest test_env (Str ''k'')) v1 ?u))"
    by (simp add: test_dtl test_digest)
  have m: "merge_result test_env (digest test_env (Str ''k'')) v1 (data (of_params ''#k'' None))
             = Inr (ControlledValue [v1])"
    by (simp add: merge_result_def of_params_def test_env_def v1_def)
  have e: "fst (get_dtl_record test_env (digest test_env (Str ''k'')) v1
                 (snd (get_dtl_record test_env (digest test_env (Str ''k'')) v1 ?u))) = None"
    by (simp add: test_dtl test_digest)
  have 2: "fst (set' test_env ?s (Str ''k'') v1 ?u) = Inl UnauthorizedOperationException"
    using set_unauthorized_when_ledger_absent [OF v g' d', of "ControlledValue [v1]"] m e by simp
  from v 1 2 show ?thesis by simp
qed

subsection \<open>A write that raises\<close>

lemma persist_locally_raise_keeps_server:
  assumes "persist_locally env self k new_value n = (Inl e, self', n')"
  shows "self' = self"
  using assms
  by (auto simp: persist_locally_def Let_def split: prod.splits sum.splits if_splits)

lemma test_select_single:
  "select_most_common_response dkey [of_params dkey (Some s)] = Some s"
  by (simp add: select_most_common_response_def payloads_def most_common_def
      List.map_filter_def of_params_def)

text \<open>
  Three runs that raise: the signature of the value is not valid; the ledger has no
  record; the key holds a single value of another writer.
\<close>

lemma run_invalid:
  "set' test_env (test_server [(''#k'', 0, ''v1'')]) (Str ''k'') unsigned joined
     = (Inl UnauthorizedOperationException, test_server [(''#k'', 0, ''v1'')], joined)"
  by (simp add: set'_def test_valid unsigned_def)

lemma run_unauth:
  "fst (set' test_env (test_server [(''#k'', 0, ''v1'')]) (Str ''k'') v1 (alone\<lparr>ledger := []\<rparr>))
     = Inl UnauthorizedOperationException"
proof -
  let ?s = "test_server [(''#k'', 0, ''v1'')]"
  let ?w = "alone\<lparr>ledger := []\<rparr>"
  have v: "is_valid test_env v1" by (simp add: test_valid v1_def alice_def)
  have g: "get test_env ?s (Str ''k'') ?w = (of_params ''#k'' None, ?w)"
    using test_get_alone [of ?w ?s "''k''"] by (simp add: alone_def)
  have d: "get_dtl_record test_env (digest test_env (Str ''k'')) v1 ?w
             = (None, snd (get_dtl_record test_env (digest test_env (Str ''k'')) v1 ?w))"
    by (simp add: test_dtl test_digest)
  from v persist_locally_first_absent [OF g d] show ?thesis by (simp add: set'_def)
qed

lemma run_rejected:
  "fst (set' test_env (test_server [(''#j'', 0, ''v1'')]) (Str ''k'') v2
          (joined\<lparr>answers := [of_params ''#k'' (Some ''v1'')]\<rparr>))
     = Inl UnauthorizedOperationException"
proof -
  let ?s = "test_server [(''#j'', 0, ''v1'')]"
  let ?w = "joined\<lparr>answers := [of_params ''#k'' (Some ''v1'')]\<rparr>"
  have v: "is_valid test_env v2" by (simp add: test_valid v2_def bob_def)
  have g: "get test_env ?s (Str ''k'') ?w
             = (of_params ''#k'' (Some ''v1''), ?w\<lparr>calls := calls ?w @ [Lookup ''#k'']\<rparr>)"
    using test_get_joined [of ?w ?s "''k''"]
    by (simp add: joined_def alone_def test_server_def test_get_def test_select_single)
  have d: "get_dtl_record test_env (digest test_env (Str ''k'')) v2
              (?w\<lparr>calls := calls ?w @ [Lookup ''#k'']\<rparr>)
             = (Some ''permit'', snd (get_dtl_record test_env (digest test_env (Str ''k'')) v2
              (?w\<lparr>calls := calls ?w @ [Lookup ''#k'']\<rparr>)))"
    by (simp add: test_dtl test_digest joined_def alone_def)
  have m: "merge_result test_env (digest test_env (Str ''k'')) v2
             (data (of_params ''#k'' (Some ''v1''))) = Inl UnauthorizedOperationException"
    by (simp add: merge_result_def of_params_def test_env_def v1_def v2_def alice_def bob_def)
  from v persist_locally_merge_raises [OF g d m] show ?thesis by (simp add: set'_def)
qed

text \<open>
  Claim C10. Whenever \<open>set(key, value)\<close> raises, the storage of the server is the
  storage it had before the call: the one assignment to \<open>self.storage\<close> is the last
  statement of \<open>_persist_locally\<close>, after the validity check of \<open>set\<close>, both ledger
  checks and \<open>validate_secure_value\<close>.
\<close>

theorem set_raise_keeps_storage:
  assumes "set' env self k new_value n = (Inl e, self', n')"
  shows "storage self' = storage self"
proof (cases "is_valid env new_value")
  case False
  with assms show ?thesis by (simp add: set'_def)
next
  case True
  obtain r s m where p: "persist_locally env self k new_value n = (r, s, m)"
    by (cases "persist_locally env self k new_value n") auto
  show ?thesis
  proof (cases r)
    case (Inl e')
    with p have "s = self" by (simp add: persist_locally_raise_keeps_server)
    with assms True p Inl show ?thesis by (simp add: set'_def)
  next
    case (Inr u)
    with assms True p show ?thesis by (simp add: set'_def split: prod.splits)
  qed
qed

theorem set_raise_keeps_storage_witness:
  "fst (set' test_env (test_server [(''#k'', 0, ''v1'')]) (Str ''k'') unsigned joined)
     = Inl UnauthorizedOperationException
   \<and> storage (fst (snd (set' test_env (test_server [(''#k'', 0, ''v1'')]) (Str ''k'') unsigned
                          joined)))
     = [(''#k'', 0, ''v1'')]
   \<and> fst (set' test_env (test_server [(''#k'', 0, ''v1'')]) (Str ''k'') v1
            (alone\<lparr>ledger := []\<rparr>))
     = Inl UnauthorizedOperationException
   \<and> storage (fst (snd (set' test_env (test_server [(''#k'', 0, ''v1'')]) (Str ''k'') v1
                          (alone\<lparr>ledger := []\<rparr>))))
     = [(''#k'', 0, ''v1'')]
   \<and> fst (set' test_env (test_server [(''#j'', 0, ''v1'')]) (Str ''k'') v2
          (joined\<lparr>answers := [of_params ''#k'' (Some ''v1'')]\<rparr>))
     = Inl UnauthorizedOperationException
   \<and> storage (fst (snd (set' test_env (test_server [(''#j'', 0, ''v1'')]) (Str ''k'') v2
          (joined\<lparr>answers := [of_params ''#k'' (Some ''v1'')]\<rparr>))))
     = [(''#j'', 0, ''v1'')]"
proof -
  have c: "\<And>x :: (error + bool) \<times> test_storage Server \<times> World.
             fst x = Inl UnauthorizedOperationException \<Longrightarrow>
             x = (Inl UnauthorizedOperationException, fst (snd x), snd (snd x))"
    by (metis prod.collapse)
  note a = set_raise_keeps_storage [OF c [OF arg_cong [OF run_invalid, of fst, simplified]]]
  note b = set_raise_keeps_storage [OF c [OF run_unauth]]
  note d = set_raise_keeps_storage [OF c [OF run_rejected]]
  from a b d run_invalid run_unauth run_rejected show ?thesis
    by (simp add: test_server_def)
qed

subsection \<open>The conflict rule\<close>

lemma merge_result_cases:
  "merge_result env dkey new_value d =
     (if truthy d then
        (case create_from_string env dkey (the d) of
           Inl e \<Rightarrow> Inl e
         | Inr (ControlledValue vals) \<Rightarrow> Inr (ControlledValue (vals @ [new_value]))
         | Inr (Single stored_value) \<Rightarrow>
             (case validate_secure_value env dkey new_value stored_value of
                Some e \<Rightarrow> Inl e
              | None \<Rightarrow> Inr (Single new_value)))
      else Inr (create_from_value env new_value))"
  by (simp add: merge_result_def add_value_def split: sum.splits StoredValue.splits)

lemma test_v1_valid: "is_valid test_env v1"
  by (simp add: test_valid v1_def alice_def)

lemma test_dtl_fst:
  "fst (get_dtl_record test_env dkey v w) = (case ledger w of [] \<Rightarrow> None | r # rs \<Rightarrow> r)"
  by (simp add: test_dtl)

lemma test_dtl_snd:
  "ledger (snd (get_dtl_record test_env dkey v w)) = tl (ledger w)"
  "peers (snd (get_dtl_record test_env dkey v w)) = peers w"
  "now (snd (get_dtl_record test_env dkey v w)) = now w"
  "accepting (snd (get_dtl_record test_env dkey v w)) = accepting w"
  by (simp_all add: test_dtl)

lemma pair_fst_snd: "fst p = a \<Longrightarrow> p = (a, snd p)"
  by (cases p) simp

lemma test_store:
  "storage_get test_env t st dkey = test_get t st dkey"
  "storage_setitem test_env t st dkey v = test_setitem t st dkey v"
  "clock test_env w = now w"
  by (simp_all add: test_env_def)

lemma test_values:
  "create_from_string test_env dkey ''[v1;]'' = Inr (ControlledValue [v1])"
  "create_from_string test_env dkey ''v1'' = Inr (Single v1)"
  "create_from_value test_env v2 = ControlledValue [v2]"
  "validate_secure_value test_env dkey v2 v1 = Some UnauthorizedOperationException"
  "str_ControlledValue test_env [v2] = ''[v2;]''"
  by (simp_all add: test_env_def v1_def v2_def alice_def bob_def)

text \<open>
  Claim C2 as it is worded does not hold. The value the conflict rule looks at is the
  payload \<open>get(key)\<close> resolves, not the entry of the local store, and with no neighbour
  \<open>get\<close> returns before it reads the store. Two runs on a node without neighbours. The
  store holds the list with \<open>v1\<close>, which parses to a \<open>ControlledValue\<close>, and \<open>v2\<close> is
  written: the entry afterwards holds \<open>v2\<close> alone. The store holds the single value
  \<open>v1\<close> of another writer, which \<open>validate_secure_value\<close> would reject \<open>v2\<close> against:
  \<open>v2\<close> is written all the same.
\<close>

theorem persist_locally_ignores_local_store:
  "storage_get test_env (clock test_env alone) (storage (test_server [(''#k'', 0, ''[v1;]'')]))
      (digest test_env (Str ''k'')) = Some ''[v1;]''
   \<and> create_from_string test_env (digest test_env (Str ''k'')) ''[v1;]''
       = Inr (ControlledValue [v1])
   \<and> storage (fst (snd (persist_locally test_env (test_server [(''#k'', 0, ''[v1;]'')])
                          (Str ''k'') v2 alone)))
       = [(''#k'', 5000, ''[v2;]'')]
   \<and> storage_get test_env (clock test_env alone) (storage (test_server [(''#k'', 0, ''v1'')]))
      (digest test_env (Str ''k'')) = Some ''v1''
   \<and> create_from_string test_env (digest test_env (Str ''k'')) ''v1'' = Inr (Single v1)
   \<and> validate_secure_value test_env (digest test_env (Str ''k'')) v2 v1
       = Some UnauthorizedOperationException
   \<and> storage (fst (snd (persist_locally test_env (test_server [(''#k'', 0, ''v1'')])
                          (Str ''k'') v2 alone)))
       = [(''#k'', 5000, ''[v2;]'')]"
proof -
  have p: "\<And>st. storage (fst (snd (persist_locally test_env (test_server [(''#k'', 0, st)])
                          (Str ''k'') v2 alone)))
       = [(''#k'', 5000, ''[v2;]'')]"
  proof -
    fix st
    let ?s = "test_server [(''#k'', 0, st)]"
    let ?k = "Str ''k''"
    let ?n2 = "snd (get_dtl_record test_env (digest test_env ?k) v2 alone)"
    let ?n3 = "snd (get_dtl_record test_env (digest test_env ?k) v2 ?n2)"
    have g: "get test_env ?s ?k alone = (of_params ''#k'' None, alone)"
      using test_get_alone [of alone ?s "''k''"] by (simp add: alone_def)
    have a: "get_dtl_record test_env (digest test_env ?k) v2 alone = (Some ''permit'', ?n2)"
      by (rule pair_fst_snd) (simp add: test_dtl_fst alone_def)
    have m: "merge_result test_env (digest test_env ?k) v2 (data (of_params ''#k'' None))
               = Inr (ControlledValue [v2])"
      by (simp add: merge_result_def of_params_def test_values)
    have b: "get_dtl_record test_env (digest test_env ?k) v2 ?n2 = (Some ''permit'', ?n3)"
      by (rule pair_fst_snd) (simp add: test_dtl_fst test_dtl_snd alone_def)
    have t: "now ?n3 = 5000" by (simp add: test_dtl_snd alone_def)
    from persist_locally_writes [OF g a m b] t
    show "storage (fst (snd (persist_locally test_env ?s ?k v2 alone)))
            = [(''#k'', 5000, ''[v2;]'')]"
      by (simp add: test_store test_digest test_values test_setitem_def test_server_def)
  qed
  show ?thesis
    by (simp add: p test_values)
       (simp add: test_store test_digest test_get_def test_server_def)
qed

text \<open>
  Claim C2, amended. In \<open>_persist_locally\<close>, once both ledger checks find a record, the
  conflict rule is applied to the payload \<open>get(key)\<close> resolves. If that payload is not
  empty and parses to a \<open>ControlledValue\<close>, the new value is appended to its values, all
  of which are kept, and the serialized list is written. If it parses to a single
  \<open>Value\<close>, the new value is checked by
  \<open>validate_secure_value(dkey, new_value, stored_value)\<close>, and is written in place of the
  old one when the check passes, while the exception of a failed check leaves the server
  as it was. If \<open>get(key)\<close> resolves no payload, as it does whenever no neighbour is
  known, \<open>ValueFactory.create_from_value(new_value)\<close> is written, whatever the local
  store holds. What is written under the digest of the key is \<open>str(result)\<close>.
\<close>

theorem persist_locally_conflict_rule:
  assumes "get env self k n = (value_response, n1)"
      and "get_dtl_record env (digest env k) new_value n1 = (r1, n2)"
      and "get_dtl_record env (digest env k) new_value n2 = (r2, n3)"
      and "truthy r1"
      and "truthy r2"
  shows "(\<forall>vals. truthy (data value_response)
            \<and> create_from_string env (digest env k) (the (data value_response))
                = Inr (ControlledValue vals) \<longrightarrow>
            persist_locally env self k new_value n
              = (Inr (),
                 self\<lparr>storage := storage_setitem env (clock env n3) (storage self)
                                    (digest env k)
                                    (str_ControlledValue env (vals @ [new_value]))\<rparr>,
                 n3))
       \<and> (\<forall>stored_value. truthy (data value_response)
            \<and> create_from_string env (digest env k) (the (data value_response))
                = Inr (Single stored_value) \<longrightarrow>
            (validate_secure_value env (digest env k) new_value stored_value = None \<longrightarrow>
               persist_locally env self k new_value n
                 = (Inr (),
                    self\<lparr>storage := storage_setitem env (clock env n3) (storage self)
                                       (digest env k) (str_Value env new_value)\<rparr>,
                    n3))
            \<and> (\<forall>e. validate_secure_value env (digest env k) new_value stored_value = Some e
                   \<longrightarrow> persist_locally env self k new_value n = (Inl e, self, n2)))
       \<and> (\<not> truthy (data value_response) \<longrightarrow>
            persist_locally env self k new_value n
              = (Inr (),
                 self\<lparr>storage := storage_setitem env (clock env n3) (storage self)
                                    (digest env k)
                                    (str_of env (create_from_value env new_value))\<rparr>,
                 n3))"
proof (intro conjI allI impI)
  fix vals
  assume "truthy (data value_response)
            \<and> create_from_string env (digest env k) (the (data value_response))
                = Inr (ControlledValue vals)"
  then have "merge_result env (digest env k) new_value (data value_response)
               = Inr (ControlledValue (vals @ [new_value]))"
    by (simp add: merge_result_cases)
  from persist_locally_writes [OF assms(1,2) this assms(3,4,5)]
  show "persist_locally env self k new_value n
              = (Inr (),
                 self\<lparr>storage := storage_setitem env (clock env n3) (storage self)
                                    (digest env k)
                                    (str_ControlledValue env (vals @ [new_value]))\<rparr>,
                 n3)"
    by simp
next
  fix stored_value
  assume a: "truthy (data value_response)
            \<and> create_from_string env (digest env k) (the (data value_response))
                = Inr (Single stored_value)"
    and b: "validate_secure_value env (digest env k) new_value stored_value = None"
  then have "merge_result env (digest env k) new_value (data value_response)
               = Inr (Single new_value)"
    by (simp add: merge_result_cases)
  from persist_locally_writes [OF assms(1,2) this assms(3,4,5)]
  show "persist_locally env self k new_value n
                 = (Inr (),
                    self\<lparr>storage := storage_setitem env (clock env n3) (storage self)
                                       (digest env k) (str_Value env new_value)\<rparr>,
                    n3)"
    by simp
next
  fix stored_value e
  assume a: "truthy (data value_response)
            \<and> create_from_string env (digest env k) (the (data value_response))
                = Inr (Single stored_value)"
    and b: "validate_secure_value env (digest env k) new_value stored_value = Some e"
  then have "merge_result env (digest env k) new_value (data value_response) = Inl e"
    by (simp add: merge_result_cases)
  from persist_locally_merge_raises [OF assms(1,2) this assms(4)]
  show "persist_locally env self k new_value n = (Inl e, self, n2)" .
next
  assume "\<not> truthy (data value_response)"
  then have "merge_result env (digest env k) new_value (data value_response)
               = Inr (create_from_value env new_value)"
    by (simp add: merge_result_cases)
  from persist_locally_writes [OF assms(1,2) this assms(3,4,5)]
  show "persist_locally env self k new_value n
              = (Inr (),
                 self\<lparr>storage := storage_setitem env (clock env n3) (storage self)
                                    (digest env k)
                                    (str_of env (create_from_value env new_value))\<rparr>,
                 n3)" .
qed

lemma test_get_seeded:
  "peers w \<noteq> [] \<Longrightarrow> test_get (now w) (storage self) (''#'' @ s) = Some v \<Longrightarrow> v \<noteq> [] \<Longrightarrow>
   get test_env self (Str s) w
     = (of_params (''#'' @ s)
          (select_most_common_response (''#'' @ s) (of_params (''#'' @ s) (Some v) # answers w)),
        w\<lparr>calls := calls w @ [Lookup (''#'' @ s)]\<rparr>)"
  by (simp add: get_def test_env_def ValueSpiderCrawl_find_def Let_def)

text \<open>
  Three runs: a first write of \<open>v1\<close> on a node without neighbours; a write of \<open>v2\<close> on
  a node that has a neighbour and whose own store holds the list with \<open>v1\<close>, which the
  lookup is seeded with; a write of \<open>v1b\<close> where the network holds the single value \<open>v1\<close> of
  the same writer.
\<close>

theorem persist_locally_conflict_rule_witness:
  "storage (fst (snd (persist_locally test_env (test_server []) (Str ''k'') v1 alone)))
     = [(''#k'', 5000, ''[v1;]'')]
   \<and> storage (fst (snd (persist_locally test_env (test_server [(''#k'', 0, ''[v1;]'')])
                          (Str ''k'') v2 joined)))
     = [(''#k'', 5000, ''[v1;v2;]'')]
   \<and> storage (fst (snd (persist_locally test_env (test_server []) (Str ''k'') v1b
                          (joined\<lparr>answers := [of_params ''#k'' (Some ''v1'')]\<rparr>))))
     = [(''#k'', 5000, ''v1b'')]"
proof -
  let ?s = "test_server []"
  let ?k = "Str ''k''"
  have 1: "storage (fst (snd (persist_locally test_env ?s ?k v1 alone)))
             = [(''#k'', 5000, ''[v1;]'')]"
  proof -
    let ?n2 = "snd (get_dtl_record test_env (digest test_env ?k) v1 alone)"
    let ?n3 = "snd (get_dtl_record test_env (digest test_env ?k) v1 ?n2)"
    have g: "get test_env ?s ?k alone = (of_params ''#k'' None, alone)"
      using test_get_alone [of alone ?s "''k''"] by (simp add: alone_def)
    have a: "get_dtl_record test_env (digest test_env ?k) v1 alone = (Some ''permit'', ?n2)"
      by (rule pair_fst_snd) (simp add: test_dtl_fst alone_def)
    have b: "get_dtl_record test_env (digest test_env ?k) v1 ?n2 = (Some ''permit'', ?n3)"
      by (rule pair_fst_snd) (simp add: test_dtl_fst test_dtl_snd alone_def)
    have t: "now ?n3 = 5000" by (simp add: test_dtl_snd alone_def)
    from persist_locally_conflict_rule [OF g a b] t
    show ?thesis
      by (simp add: of_params_def test_env_def test_setitem_def test_server_def v1_def)
  qed
  have 2: "storage (fst (snd (persist_locally test_env (test_server [(''#k'', 0, ''[v1;]'')])
                          (Str ''k'') v2 joined)))
     = [(''#k'', 5000, ''[v1;v2;]'')]"
  proof -
    let ?t = "test_server [(''#k'', 0, ''[v1;]'')]"
    let ?n1 = "joined\<lparr>calls := calls joined @ [Lookup ''#k'']\<rparr>"
    let ?n2 = "snd (get_dtl_record test_env (digest test_env ?k) v2 ?n1)"
    let ?n3 = "snd (get_dtl_record test_env (digest test_env ?k) v2 ?n2)"
    have g: "get test_env ?t ?k joined = (of_params ''#k'' (Some ''[v1;]''), ?n1)"
      using test_get_seeded [of joined ?t "''k''" "''[v1;]''"]
      by (simp add: joined_def alone_def test_server_def test_get_def test_select_single)
    have a: "get_dtl_record test_env (digest test_env ?k) v2 ?n1 = (Some ''permit'', ?n2)"
      by (rule pair_fst_snd) (simp add: test_dtl_fst joined_def alone_def)
    have b: "get_dtl_record test_env (digest test_env ?k) v2 ?n2 = (Some ''permit'', ?n3)"
      by (rule pair_fst_snd) (simp add: test_dtl_fst test_dtl_snd joined_def alone_def)
    have t: "now ?n3 = 5000" by (simp add: test_dtl_snd joined_def alone_def)
    from persist_locally_conflict_rule [OF g a b] t
    show ?thesis
      by (simp add: of_params_def test_env_def test_setitem_def test_server_def
          v1_def v2_def)
  qed
  have 3: "storage (fst (snd (persist_locally test_env ?s ?k v1b
                          (joined\<lparr>answers := [of_params ''#k'' (Some ''v1'')]\<rparr>))))
     = [(''#k'', 5000, ''v1b'')]"
  proof -
    let ?w = "joined\<lparr>answers := [of_params ''#k'' (Some ''v1'')]\<rparr>"
    let ?n1 = "?w\<lparr>calls := calls ?w @ [Lookup ''#k'']\<rparr>"
    let ?n2 = "snd (get_dtl_record test_env (digest test_env ?k) v1b ?n1)"
    let ?n3 = "snd (get_dtl_record test_env (digest test_env ?k) v1b ?n2)"
    have g: "get test_env ?s ?k ?w = (of_params ''#k'' (Some ''v1''), ?n1)"
      using test_get_joined [of ?w ?s "''k''"]
      by (simp add: joined_def alone_def test_server_def test_get_def test_select_single)
    have a: "get_dtl_record test_env (digest test_env ?k) v1b ?n1 = (Some ''permit'', ?n2)"
      by (rule pair_fst_snd) (simp add: test_dtl_fst joined_def alone_def)
    have b: "get_dtl_record test_env (digest test_env ?k) v1b ?n2 = (Some ''permit'', ?n3)"
      by (rule pair_fst_snd) (simp add: test_dtl_fst test_dtl_snd joined_def alone_def)
    have t: "now ?n3 = 5000" by (simp add: test_dtl_snd joined_def alone_def)
    from persist_locally_conflict_rule [OF g a b] t
    show ?thesis
      by (simp add: of_params_def test_env_def test_setitem_def test_server_def
          v1_def v1b_def alice_def)
  qed
  from 1 2 3 show ?thesis by simp
qed

subsection \<open>Remote propagation\<close>

lemma call_remote_persist_alone:
  "findNeighbors env n (digest env k) = [] \<Longrightarrow> call_remote_persist env self k v n = (False, n)"
  by (simp add: call_remote_persist_def)

lemma call_remote_persist_joined:
  assumes "findNeighbors env n (digest env k) \<noteq> []"
      and "node_crawl env n (digest env k) (findNeighbors env n (digest env k))
             (ksize self) (alpha self) = (nodes, n1)"
      and "callStore_all env nodes (digest env k) v n1 = (ds, n2)"
  shows "call_remote_persist env self k v n = (True \<in> set ds, n2)"
  using assms by (auto simp: call_remote_persist_def list_ex_iff)

lemma set'_after_persist:
  assumes "is_valid env new_value"
      and "persist_locally env self k new_value n = (Inr u, self', n1)"
  shows "set' env self k new_value n
           = (Inr (fst (call_remote_persist env self' k (str_Value env new_value) n1)),
              self',
              snd (call_remote_persist env self' k (str_Value env new_value) n1))"
  using assms by (simp add: set'_def split: prod.splits)

lemma set'_persist_raises:
  assumes "persist_locally env self k new_value n = (Inl e, self', n1)"
  shows "fst (set' env self k new_value n) \<noteq> Inr b"
  using assms by (simp add: set'_def)

text \<open>
  The results \<open>asyncio.gather\<close> collects hold \<open>True\<close> exactly when some node of the list
  answered its \<open>callStore\<close> with success; the state a node is called in is the state the
  calls of the nodes before it have left.
\<close>

lemma callStore_all_accepts:
  "True \<in> set (fst (callStore_all env ps dkey v n)) \<longleftrightarrow>
     (\<exists>i < length ps.
        fst (callStore env (foldl (\<lambda>m p. snd (callStore env m p dkey v)) n (take i ps))
               (ps ! i) dkey v))"
proof (induction ps arbitrary: n)
  case Nil
  show ?case by simp
next
  case (Cons p ps)
  obtain r n' where c: "callStore env n p dkey v = (r, n')"
    by (cases "callStore env n p dkey v") auto
  have "True \<in> set (fst (callStore_all env (p # ps) dkey v n))
          \<longleftrightarrow> r \<or> True \<in> set (fst (callStore_all env ps dkey v n'))"
    using c by (auto split: prod.splits)
  also have "\<dots> \<longleftrightarrow> r \<or> (\<exists>i < length ps.
        fst (callStore env (foldl (\<lambda>m p. snd (callStore env m p dkey v)) n' (take i ps))
               (ps ! i) dkey v))"
    by (simp add: Cons.IH)
  also have "\<dots> \<longleftrightarrow> (\<exists>i < length (p # ps).
        fst (callStore env (foldl (\<lambda>m p. snd (callStore env m p dkey v)) n (take i (p # ps)))
               ((p # ps) ! i) dkey v))"
    using c by (simp add: Ex_less_Suc2)
  finally show ?case .
qed

text \<open>
  Claim C4. For a value that is valid and authorized at both ledger checks,
  \<open>set(key, value)\<close> returns \<open>True\<close> exactly when the conflict rule yields a result, the
  routing table yields neighbours, and \<open>callStore\<close> returned success for at least one of
  the nodes the crawl found. Whenever the conflict rule yields a result \<open>set\<close> returns a
  boolean. When the routing table yields no neighbour for the key, before the lookup and
  at the propagation, \<open>set\<close> returns \<open>False\<close> and does not raise.
\<close>

theorem set_true_iff_peer_accepted:
  assumes "is_valid env new_value"
      and "get env self k n = (value_response, n1)"
      and "get_dtl_record env (digest env k) new_value n1 = (r1, n2)"
      and "get_dtl_record env (digest env k) new_value n2 = (r2, n3)"
      and "truthy r1"
      and "truthy r2"
  shows "(fst (set' env self k new_value n) = Inr True \<longleftrightarrow>
            (\<exists>result nodes n4 i.
               merge_result env (digest env k) new_value (data value_response) = Inr result
               \<and> findNeighbors env n3 (digest env k) \<noteq> []
               \<and> node_crawl env n3 (digest env k) (findNeighbors env n3 (digest env k))
                    (ksize self) (alpha self) = (nodes, n4)
               \<and> i < length nodes
               \<and> fst (callStore env
                         (foldl (\<lambda>m p. snd (callStore env m p (digest env k)
                                                (str_Value env new_value)))
                            n4 (take i nodes))
                         (nodes ! i) (digest env k) (str_Value env new_value))))
         \<and> (\<forall>result.
               merge_result env (digest env k) new_value (data value_response) = Inr result
               \<longrightarrow> (\<exists>accepted. fst (set' env self k new_value n) = Inr accepted))
         \<and> (findNeighbors env n (digest env k) = []
              \<and> findNeighbors env n3 (digest env k) = [] \<longrightarrow>
            fst (set' env self k new_value n) = Inr False)"
proof (cases "merge_result env (digest env k) new_value (data value_response)")
  case (Inl e)
  from persist_locally_merge_raises [OF assms(2,3) Inl assms(5)]
  have "fst (set' env self k new_value n) \<noteq> Inr True" by (rule set'_persist_raises)
  moreover have "findNeighbors env n (digest env k) \<noteq> []"
  proof
    assume "findNeighbors env n (digest env k) = []"
    with assms(2) have "data value_response = None"
      by (auto simp: get_def of_params_def)
    with Inl show False by (simp add: merge_result_def)
  qed
  ultimately show ?thesis using Inl by simp
next
  case (Inr result)
  let ?self' = "self\<lparr>storage := storage_setitem env (clock env n3) (storage self)
                                   (digest env k) (str_of env result)\<rparr>"
  let ?v = "str_Value env new_value"
  from persist_locally_writes [OF assms(2,3) Inr assms(4,5,6)]
  have p: "persist_locally env self k new_value n = (Inr (), ?self', n3)" .
  note s = set'_after_persist [OF assms(1) p]
  show ?thesis
  proof (cases "findNeighbors env n3 (digest env k) = []")
    case True
    then have "call_remote_persist env ?self' k ?v n3 = (False, n3)"
      by (rule call_remote_persist_alone)
    with s True show ?thesis by auto
  next
    case False
    obtain nodes n4 where c: "node_crawl env n3 (digest env k)
        (findNeighbors env n3 (digest env k)) (ksize self) (alpha self) = (nodes, n4)"
      by (cases "node_crawl env n3 (digest env k)
        (findNeighbors env n3 (digest env k)) (ksize self) (alpha self)") auto
    obtain ds n5 where d: "callStore_all env nodes (digest env k) ?v n4 = (ds, n5)"
      by (cases "callStore_all env nodes (digest env k) ?v n4") auto
    from c have c': "node_crawl env n3 (digest env k)
        (findNeighbors env n3 (digest env k)) (ksize ?self') (alpha ?self') = (nodes, n4)"
      by simp
    from call_remote_persist_joined [OF False c' d]
    have "call_remote_persist env ?self' k ?v n3 = (True \<in> set ds, n5)" .
    with s have r: "fst (set' env self k new_value n) = Inr (True \<in> set ds)" by simp
    from callStore_all_accepts [of env nodes "digest env k" ?v n4] d
    have "True \<in> set ds \<longleftrightarrow>
      (\<exists>i < length nodes.
        fst (callStore env (foldl (\<lambda>m p. snd (callStore env m p (digest env k) ?v)) n4
                             (take i nodes))
               (nodes ! i) (digest env k) ?v))"
      by simp
    with r Inr False c show ?thesis by auto
  qed
qed

lemma test_net:
  "findNeighbors test_env w i = peers w"
  "node_crawl test_env w i nearest k a = (nearest, w)"
  "callStore test_env w p dkey v
     = (accepting w, w\<lparr>calls := calls w @ [Store (node_id p) dkey v]\<rparr>)"
  "str_Value test_env v' = content v'"
  by (simp_all add: test_env_def)

lemma test_merge_first:
  "merge_result test_env dkey v1 (data (of_params dkey None)) = Inr (ControlledValue [v1])"
  by (simp add: merge_result_def of_params_def test_env_def v1_def)

lemma test_select_none: "select_most_common_response dkey [] = None"
  by (simp add: select_most_common_response_def payloads_def most_common_def
      List.map_filter_def)

lemma test_callStore_fst: "fst (callStore test_env w p dkey v) = accepting w"
  by (simp add: test_net)

lemma test_store_fold:
  "accepting (foldl (\<lambda>m p. snd (callStore test_env m p dkey v)) w ps) = accepting w"
  by (induction ps arbitrary: w) (simp_all add: test_net)

text \<open>
  Three runs: one neighbour that accepts the store call, one neighbour that refuses it,
  and no neighbour.
\<close>

theorem set_true_iff_peer_accepted_witness:
  "is_valid test_env v1
   \<and> fst (set' test_env (test_server []) (Str ''k'') v1 joined) = Inr True
   \<and> fst (set' test_env (test_server []) (Str ''k'') v1 (joined\<lparr>accepting := False\<rparr>))
       = Inr False
   \<and> fst (set' test_env (test_server []) (Str ''k'') v1 alone) = Inr False"
proof -
  let ?s = "test_server []"
  let ?k = "Str ''k''"
  let ?step = "\<lambda>m p. snd (callStore test_env m p (digest test_env ?k) (str_Value test_env v1))"
  have 1: "fst (set' test_env ?s ?k v1 joined) = Inr True"
  proof -
    let ?n1 = "joined\<lparr>calls := calls joined @ [Lookup ''#k'']\<rparr>"
    let ?n2 = "snd (get_dtl_record test_env (digest test_env ?k) v1 ?n1)"
    let ?n3 = "snd (get_dtl_record test_env (digest test_env ?k) v1 ?n2)"
    have g: "get test_env ?s ?k joined = (of_params ''#k'' None, ?n1)"
      using test_get_joined [of joined ?s "''k''"]
      by (simp add: joined_def alone_def test_server_def test_get_def test_select_none)
    have a: "get_dtl_record test_env (digest test_env ?k) v1 ?n1 = (Some ''permit'', ?n2)"
      by (rule pair_fst_snd) (simp add: test_dtl_fst joined_def alone_def)
    have b: "get_dtl_record test_env (digest test_env ?k) v1 ?n2 = (Some ''permit'', ?n3)"
      by (rule pair_fst_snd) (simp add: test_dtl_fst test_dtl_snd joined_def alone_def)
    have t: "truthy (Some ''permit'')" by simp
    have p: "peers ?n3 = [peer1]" and c: "accepting ?n3"
      by (simp_all add: test_dtl_snd joined_def alone_def)
    have "merge_result test_env (digest test_env ?k) v1 (data (of_params ''#k'' None))
            = Inr (ControlledValue [v1])
          \<and> findNeighbors test_env ?n3 (digest test_env ?k) \<noteq> []
          \<and> node_crawl test_env ?n3 (digest test_env ?k)
               (findNeighbors test_env ?n3 (digest test_env ?k)) (ksize ?s) (alpha ?s)
              = ([peer1], ?n3)
          \<and> 0 < length [peer1]
          \<and> fst (callStore test_env (foldl ?step ?n3 (take 0 [peer1])) ([peer1] ! 0)
                   (digest test_env ?k) (str_Value test_env v1))"
      using p c by (simp add: test_merge_first test_net test_digest)
    with set_true_iff_peer_accepted [OF test_v1_valid g a b t t] show ?thesis by blast
  qed
  have 2: "fst (set' test_env ?s ?k v1 (joined\<lparr>accepting := False\<rparr>)) = Inr False"
  proof -
    let ?w = "joined\<lparr>accepting := False\<rparr>"
    let ?n1 = "?w\<lparr>calls := calls ?w @ [Lookup ''#k'']\<rparr>"
    let ?n2 = "snd (get_dtl_record test_env (digest test_env ?k) v1 ?n1)"
    let ?n3 = "snd (get_dtl_record test_env (digest test_env ?k) v1 ?n2)"
    have g: "get test_env ?s ?k ?w = (of_params ''#k'' None, ?n1)"
      using test_get_joined [of ?w ?s "''k''"]
      by (simp add: joined_def alone_def test_server_def test_get_def test_select_none)
    have a: "get_dtl_record test_env (digest test_env ?k) v1 ?n1 = (Some ''permit'', ?n2)"
      by (rule pair_fst_snd) (simp add: test_dtl_fst joined_def alone_def)
    have b: "get_dtl_record test_env (digest test_env ?k) v1 ?n2 = (Some ''permit'', ?n3)"
      by (rule pair_fst_snd) (simp add: test_dtl_fst test_dtl_snd joined_def alone_def)
    have t: "truthy (Some ''permit'')" by simp
    have c: "\<not> accepting ?n3"
      by (simp add: test_dtl_snd joined_def alone_def)
    have m: "merge_result test_env (digest test_env ?k) v1 (data (of_params ''#k'' None))
            = Inr (ControlledValue [v1])"
      by (simp add: test_merge_first test_digest)
    have no: "\<And>nodes n4 i.
        node_crawl test_env ?n3 (digest test_env ?k)
          (findNeighbors test_env ?n3 (digest test_env ?k)) (ksize ?s) (alpha ?s) = (nodes, n4)
        \<Longrightarrow> \<not> fst (callStore test_env (foldl ?step n4 (take i nodes)) (nodes ! i)
                       (digest test_env ?k) (str_Value test_env v1))"
      using c by (auto simp: test_net(1,2) test_callStore_fst test_store_fold)
    note r = set_true_iff_peer_accepted [OF test_v1_valid g a b t t]
    from r m obtain accepted
      where e: "fst (set' test_env ?s ?k v1 ?w) = Inr accepted" by blast
    from r no have "fst (set' test_env ?s ?k v1 ?w) \<noteq> Inr True" by blast
    with e show ?thesis by auto
  qed
  have 3: "fst (set' test_env ?s ?k v1 alone) = Inr False"
  proof -
    let ?n2 = "snd (get_dtl_record test_env (digest test_env ?k) v1 alone)"
    let ?n3 = "snd (get_dtl_record test_env (digest test_env ?k) v1 ?n2)"
    have g: "get test_env ?s ?k alone = (of_params ''#k'' None, alone)"
      using test_get_alone [of alone ?s "''k''"] by (simp add: alone_def)
    have a: "get_dtl_record test_env (digest test_env ?k) v1 alone = (Some ''permit'', ?n2)"
      by (rule pair_fst_snd) (simp add: test_dtl_fst alone_def)
    have b: "get_dtl_record test_env (digest test_env ?k) v1 ?n2 = (Some ''permit'', ?n3)"
      by (rule pair_fst_snd) (simp add: test_dtl_fst test_dtl_snd alone_def)
    have t: "truthy (Some ''permit'')" by simp
    have "findNeighbors test_env alone (digest test_env ?k) = []
          \<and> findNeighbors test_env ?n3 (digest test_env ?k) = []"
      by (simp add: test_net test_dtl_snd alone_def)
    with set_true_iff_peer_accepted [OF test_v1_valid g a b t t] show ?thesis by blast
  qed
  from test_v1_valid 1 2 3 show ?thesis by simp
qed

text \<open>
  Claim C6. There is no transaction around the local write and the propagation: when
  the local write of \<open>_persist_locally\<close> succeeds and every \<open>callStore\<close> is refused,
  \<open>set(key, value)\<close> returns \<open>False\<close> and the server keeps the storage with the merged
  value written; nothing rolls the write back.
\<close>

theorem set_local_write_kept_when_peers_refuse:
  assumes "is_valid env new_value"
      and "get env self k n = (value_response, n1)"
      and "get_dtl_record env (digest env k) new_value n1 = (r1, n2)"
      and "merge_result env (digest env k) new_value (data value_response) = Inr result"
      and "get_dtl_record env (digest env k) new_value n2 = (r2, n3)"
      and "findNeighbors env n3 (digest env k) \<noteq> []"
      and "node_crawl env n3 (digest env k) (findNeighbors env n3 (digest env k))
             (ksize self) (alpha self) = (nodes, n4)"
      and "callStore_all env nodes (digest env k) (str_Value env new_value) n4 = (ds, n5)"
      and "True \<notin> set ds"
      and "truthy r1"
      and "truthy r2"
  shows "set' env self k new_value n
           = (Inr False,
              self\<lparr>storage := storage_setitem env (clock env n3) (storage self)
                                 (digest env k) (str_of env result)\<rparr>,
              n5)"
proof -
  let ?self' = "self\<lparr>storage := storage_setitem env (clock env n3) (storage self)
                                   (digest env k) (str_of env result)\<rparr>"
  from persist_locally_writes [OF assms(2,3,4,5,10,11)]
  have p: "persist_locally env self k new_value n = (Inr (), ?self', n3)" .
  from assms(7) have c: "node_crawl env n3 (digest env k)
        (findNeighbors env n3 (digest env k)) (ksize ?self') (alpha ?self') = (nodes, n4)"
    by simp
  from call_remote_persist_joined [OF assms(6) c assms(8)] assms(9)
  have "call_remote_persist env ?self' k (str_Value env new_value) n3 = (False, n5)" by simp
  with set'_after_persist [OF assms(1) p] show ?thesis by simp
qed

text \<open>
  Such a run: the one neighbour refuses the store call. The key is absent from the
  storage before, and holds the merged value after.
\<close>

theorem set_local_write_kept_when_peers_refuse_witness:
  "test_get 5000 (storage (test_server [])) ''#k'' = None
   \<and> fst (set' test_env (test_server []) (Str ''k'') v1 (joined\<lparr>accepting := False\<rparr>))
       = Inr False
   \<and> storage (fst (snd (set' test_env (test_server []) (Str ''k'') v1
                          (joined\<lparr>accepting := False\<rparr>))))
       = [(''#k'', 5000, ''[v1;]'')]
   \<and> test_get 5000 (storage (fst (snd (set' test_env (test_server []) (Str ''k'') v1
                                          (joined\<lparr>accepting := False\<rparr>)))))
        ''#k'' = Some ''[v1;]''
   \<and> calls (snd (snd (set' test_env (test_server []) (Str ''k'') v1
                        (joined\<lparr>accepting := False\<rparr>))))
       = [Lookup ''#k'', Query ''23323336627361'', Query ''23323336627361'',
          Store ''p1'' ''#k'' ''v1'']"
proof -
  let ?s = "test_server []"
  let ?k = "Str ''k''"
  let ?w = "joined\<lparr>accepting := False\<rparr>"
  let ?n1 = "?w\<lparr>calls := calls ?w @ [Lookup ''#k'']\<rparr>"
  let ?n2 = "snd (get_dtl_record test_env (digest test_env ?k) v1 ?n1)"
  let ?n3 = "snd (get_dtl_record test_env (digest test_env ?k) v1 ?n2)"
  let ?n5 = "?n3\<lparr>calls := calls ?n3 @ [Store (node_id peer1) ''#k'' ''v1'']\<rparr>"
  have g: "get test_env ?s ?k ?w = (of_params ''#k'' None, ?n1)"
    using test_get_joined [of ?w ?s "''k''"]
    by (simp add: joined_def alone_def test_server_def test_get_def test_select_none)
  have a: "get_dtl_record test_env (digest test_env ?k) v1 ?n1 = (Some ''permit'', ?n2)"
    by (rule pair_fst_snd) (simp add: test_dtl_fst joined_def alone_def)
  have m: "merge_result test_env (digest test_env ?k) v1 (data (of_params ''#k'' None))
            = Inr (ControlledValue [v1])"
    by (simp add: test_merge_first test_digest)
  have b: "get_dtl_record test_env (digest test_env ?k) v1 ?n2 = (Some ''permit'', ?n3)"
    by (rule pair_fst_snd) (simp add: test_dtl_fst test_dtl_snd joined_def alone_def)
  have p: "peers ?n3 = [peer1]" and c: "\<not> accepting ?n3" and t: "now ?n3 = 5000"
    by (simp_all add: test_dtl_snd joined_def alone_def)
  have nb: "findNeighbors test_env ?n3 (digest test_env ?k) \<noteq> []"
    using p by (simp add: test_net)
  have cr: "node_crawl test_env ?n3 (digest test_env ?k)
               (findNeighbors test_env ?n3 (digest test_env ?k)) (ksize ?s) (alpha ?s)
              = ([peer1], ?n3)"
    using p by (simp add: test_net)
  have cs: "callStore_all test_env [peer1] (digest test_env ?k) (str_Value test_env v1) ?n3
              = ([False], ?n5)"
    using c by (simp add: test_net test_digest v1_def)
  have no: "True \<notin> set [False]" by simp
  have tr: "truthy (Some ''permit'')" by simp
  note r = set_local_write_kept_when_peers_refuse [OF test_v1_valid g a m b nb cr cs no tr tr]
  have st: "storage (fst (snd (set' test_env ?s ?k v1 ?w))) = [(''#k'', 5000, ''[v1;]'')]"
    using r t by (simp add: test_env_def test_setitem_def test_server_def v1_def)
  have cl: "calls ?n5 = [Lookup ''#k'', Query ''23323336627361'', Query ''23323336627361'',
          Store ''p1'' ''#k'' ''v1'']"
    by (simp add: test_dtl test_digest joined_def alone_def peer1_def v1_def alice_def
        hex_def hex_digit_def)
  from r st cl show ?thesis
    by (simp add: test_get_def test_server_def)
qed

section \<open>The local copy in a lookup\<close>

text \<open>
  Claim C7 as it is worded does not hold. Two runs of \<open>get\<close> on a server whose storage
  holds a value under the digest of the key. With no neighbour, \<open>get\<close> returns before it reads the storage: no crawl runs and
  the answer carries no data, although a vote over the local copy alone would return it.
  With a neighbour and the empty string stored, \<open>if local_value:\<close> is false: the crawl
  runs without a seed, and the answer carries no data although a vote including the local
  copy would return it.
\<close>

theorem get_skips_local_value:
  "storage_get test_env (clock test_env alone) (storage (test_server [(''#k'', 0, ''v1'')]))
      (digest test_env (Str ''k'')) = Some ''v1''
   \<and> get test_env (test_server [(''#k'', 0, ''v1'')]) (Str ''k'') alone
       = (of_params ''#k'' None, alone)
   \<and> select_most_common_response ''#k'' [of_params ''#k'' (Some ''v1'')] = Some ''v1''
   \<and> storage_get test_env (clock test_env joined) (storage (test_server [(''#k'', 0, [])]))
      (digest test_env (Str ''k'')) = Some []
   \<and> get test_env (test_server [(''#k'', 0, [])]) (Str ''k'') joined
       = (of_params ''#k'' None, joined\<lparr>calls := [Lookup ''#k'']\<rparr>)
   \<and> select_most_common_response ''#k'' [of_params ''#k'' (Some [])] = Some []"
proof -
  have 1: "storage_get test_env (clock test_env alone)
      (storage (test_server [(''#k'', 0, ''v1'')])) (digest test_env (Str ''k'')) = Some ''v1''"
    by (simp add: test_env_def test_get_def test_server_def)
  have 2: "get test_env (test_server [(''#k'', 0, ''v1'')]) (Str ''k'') alone
       = (of_params ''#k'' None, alone)"
    using test_get_alone [of alone "test_server [(''#k'', 0, ''v1'')]" "''k''"]
    by (simp add: alone_def)
  have 3: "storage_get test_env (clock test_env joined)
      (storage (test_server [(''#k'', 0, [])])) (digest test_env (Str ''k'')) = Some []"
    by (simp add: test_env_def test_get_def test_server_def)
  have 4: "get test_env (test_server [(''#k'', 0, [])]) (Str ''k'') joined
       = (of_params ''#k'' None, joined\<lparr>calls := [Lookup ''#k'']\<rparr>)"
    by (simp add: get_def test_env_def test_get_def test_server_def ValueSpiderCrawl_find_def
        Let_def joined_def alone_def test_select_none)
  from 1 2 3 4 show ?thesis by (simp add: test_select_single)
qed

text \<open>
  With a neighbour known and a stored value that is absent or empty, the crawl runs
  without a seed, and the answer is resolved from what the peers answered alone.
\<close>

lemma get_without_seed:
  assumes "findNeighbors env n (digest env k) \<noteq> []"
      and "\<not> truthy (storage_get env (clock env n) (storage self) (digest env k))"
      and "value_crawl env n (digest env k) (findNeighbors env n (digest env k))
             (ksize self) (alpha self) [] = (gathered, n')"
  shows "get env self k n
           = (of_params (digest env k) (select_most_common_response (digest env k) gathered),
              n')"
  using assms by (simp add: get_def ValueSpiderCrawl_find_def Let_def)

text \<open>
  Claim C7, amended. In \<open>get(key)\<close>, whenever the routing table yields at least one
  neighbour and the storage holds a non-empty value under the digest of the key, that
  value is wrapped as a \<open>NodeMessage\<close> and given to the value crawl as its seed; it is the
  first of the responses over which \<open>select_most_common_response\<close> resolves the answer,
  so its payload is the first payload of the vote.
\<close>

theorem get_seeds_local_value:
  assumes "findNeighbors env n (digest env k) \<noteq> []"
      and "storage_get env (clock env n) (storage self) (digest env k) = Some v"
      and "v \<noteq> []"
      and "value_crawl env n (digest env k) (findNeighbors env n (digest env k))
             (ksize self) (alpha self) [of_params (digest env k) (Some v)] = (gathered, n')"
  shows "get env self k n
           = (of_params (digest env k)
                (select_most_common_response (digest env k)
                   (of_params (digest env k) (Some v) # gathered)),
              n')
         \<and> payloads (of_params (digest env k) (Some v) # gathered) = v # payloads gathered"
  using assms
  by (simp add: get_def ValueSpiderCrawl_find_def Let_def payloads_def List.map_filter_def
      of_params_def)

text \<open>
  A run where the one peer answers \<open>x\<close> and the storage holds \<open>v1\<close>: both payloads
  occur once, and the local copy, seen first, is the answer.
\<close>

theorem get_seeds_local_value_witness:
  "get test_env (test_server [(''#k'', 0, ''v1'')]) (Str ''k'')
       (joined\<lparr>answers := [of_params ''#k'' (Some ''x'')]\<rparr>)
     = (of_params ''#k'' (Some ''v1''),
        joined\<lparr>answers := [of_params ''#k'' (Some ''x'')], calls := [Lookup ''#k'']\<rparr>)"
proof -
  let ?s = "test_server [(''#k'', 0, ''v1'')]"
  let ?w = "joined\<lparr>answers := [of_params ''#k'' (Some ''x'')]\<rparr>"
  have a: "findNeighbors test_env ?w (digest test_env (Str ''k'')) \<noteq> []"
    by (simp add: test_net joined_def alone_def)
  have b: "storage_get test_env (clock test_env ?w) (storage ?s) (digest test_env (Str ''k''))
             = Some ''v1''"
    by (simp add: test_env_def test_get_def test_server_def)
  have c: "''v1'' \<noteq> []" by simp
  have d: "value_crawl test_env ?w (digest test_env (Str ''k''))
             (findNeighbors test_env ?w (digest test_env (Str ''k'')))
             (ksize ?s) (alpha ?s) [of_params (digest test_env (Str ''k'')) (Some ''v1'')]
           = ([of_params ''#k'' (Some ''x'')], ?w\<lparr>calls := [Lookup ''#k'']\<rparr>)"
    by (simp add: test_env_def joined_def alone_def)
  have e: "select_most_common_response ''#k''
             [of_params ''#k'' (Some ''v1''), of_params ''#k'' (Some ''x'')] = Some ''v1''"
    by (simp add: select_most_common_response_def payloads_def most_common_def
        List.map_filter_def of_params_def)
  from get_seeds_local_value [OF a b c d] e show ?thesis
    by (simp add: test_digest)
qed

section \<open>Republishing\<close>

lemma remote_persist_each_append:
  "remote_persist_each env self (xs @ ys) n
     = remote_persist_each env self ys (remote_persist_each env self xs n)"
  by (induction xs arbitrary: n) auto

lemma republish_values_each:
  "republish_values env self dkey vals n
     = remote_persist_each env self (map (\<lambda>v. (dkey, v)) vals) n"
  by (induction vals arbitrary: n) auto

lemma values_to_republish_parsed:
  "json_loads env v \<noteq> None \<Longrightarrow>
   values_to_republish env v
     = Inr (map snd (spec_republish_calls env [(dkey, v)]))
   \<and> spec_republish_calls env [(dkey, v)]
     = map (\<lambda>x. (dkey, x)) (map snd (spec_republish_calls env [(dkey, v)]))"
  by (auto simp: values_to_republish_def spec_republish_calls_def comp_def
      split: option.splits json.splits)

lemma spec_republish_calls_Cons:
  "spec_republish_calls env (item # items)
     = spec_republish_calls env [item] @ spec_republish_calls env items"
  by (simp add: spec_republish_calls_def)

lemma republish_parsed:
  "\<forall>item \<in> set items. json_loads env (snd item) \<noteq> None \<Longrightarrow>
   republish env self items n
     = (Inr (), remote_persist_each env self (spec_republish_calls env items) n)"
proof (induction items arbitrary: n)
  case Nil
  show ?case by (simp add: spec_republish_calls_def)
next
  case (Cons item items)
  obtain dkey v where i: "item = (dkey, v)" by (cases item) auto
  with Cons.prems have p: "json_loads env v \<noteq> None" by simp
  note e = values_to_republish_parsed [OF p, of dkey]
  from Cons.prems have "\<forall>item \<in> set items. json_loads env (snd item) \<noteq> None" by simp
  note ih = Cons.IH [OF this]
  have "republish env self (item # items) n
          = republish env self items
              (republish_values env self dkey (map snd (spec_republish_calls env [(dkey, v)])) n)"
    using i e by simp
  also have "\<dots> = (Inr (), remote_persist_each env self (spec_republish_calls env items)
              (remote_persist_each env self (spec_republish_calls env [(dkey, v)]) n))"
    using e by (simp add: ih republish_values_each)
  also have "\<dots> = (Inr (), remote_persist_each env self
              (spec_republish_calls env (item # items)) n)"
    unfolding i
    by (simp only: spec_republish_calls_Cons [of env "(dkey, v)" items]
        remote_persist_each_append)
  finally show ?case .
qed

lemma republish_stops:
  assumes "\<forall>item \<in> set before. json_loads env (snd item) \<noteq> None"
      and "json_loads env v = None"
  shows "republish env self (before @ (dkey, v) # rest) n
     = (Inl JSONDecodeError, remote_persist_each env self (spec_republish_calls env before) n)"
  using assms(1)
proof (induction before arbitrary: n)
  case Nil
  from assms(2) show ?case by (simp add: values_to_republish_def spec_republish_calls_def)
next
  case (Cons item items)
  obtain dk w where i: "item = (dk, w)" by (cases item) auto
  with Cons.prems have p: "json_loads env w \<noteq> None" by simp
  note e = values_to_republish_parsed [OF p, of dk]
  from Cons.prems have "\<forall>item \<in> set items. json_loads env (snd item) \<noteq> None" by simp
  note ih = Cons.IH [OF this]
  have "republish env self ((item # items) @ (dkey, v) # rest) n
          = republish env self (items @ (dkey, v) # rest)
              (republish_values env self dk (map snd (spec_republish_calls env [(dk, w)])) n)"
    using i e by simp
  also have "\<dots> = (Inl JSONDecodeError,
              remote_persist_each env self (spec_republish_calls env items)
              (remote_persist_each env self (spec_republish_calls env [(dk, w)]) n))"
    using e by (simp add: ih republish_values_each)
  also have "\<dots> = (Inl JSONDecodeError, remote_persist_each env self
              (spec_republish_calls env (item # items)) n)"
    unfolding i
    by (simp only: spec_republish_calls_Cons [of env "(dk, w)" items]
        remote_persist_each_append)
  finally show ?case .
qed

text \<open>
  The calls of the sweep. The periodic refresh, after the crawls of the stale buckets,
  takes the entries the storage yields as older than 3600 seconds. If the value of each
  of them is valid JSON, the refresh makes the calls \<open>_call_remote_persist(dkey, val)\<close>
  in the order of the entries: one per element, serialized again, for a value that parses
  as a list, and one with the stored value unchanged for any other value. If the value of
  an entry is not valid JSON, \<open>json.loads\<close> raises there: the calls for the entries
  before it have been made, and none for it or for any entry after it.
\<close>

lemma refresh_table_calls:
  assumes "n1 = node_crawls env n
                  (map (\<lambda>i. (i, findNeighborsK env n i (alpha self))) (getRefreshIDs env n))
                  (ksize self) (alpha self)"
      and "items = iteritemsOlderThan env (clock env n1) (storage self) 3600"
  shows "((\<forall>item \<in> set items. json_loads env (snd item) \<noteq> None) \<longrightarrow>
            refresh_table env self n
              = (Inr (), remote_persist_each env self (spec_republish_calls env items) n1))
       \<and> (\<forall>before dkey v rest.
            items = before @ (dkey, v) # rest
            \<and> (\<forall>item \<in> set before. json_loads env (snd item) \<noteq> None)
            \<and> json_loads env v = None \<longrightarrow>
            refresh_table env self n
              = (Inl JSONDecodeError,
                 remote_persist_each env self (spec_republish_calls env before) n1))"
proof (intro conjI allI impI)
  assume "\<forall>item \<in> set items. json_loads env (snd item) \<noteq> None"
  from republish_parsed [OF this] assms
  show "refresh_table env self n
              = (Inr (), remote_persist_each env self (spec_republish_calls env items) n1)"
    by (simp add: refresh_table_def Let_def)
next
  fix before dkey v rest
  assume a: "items = before @ (dkey, v) # rest
            \<and> (\<forall>item \<in> set before. json_loads env (snd item) \<noteq> None)
            \<and> json_loads env v = None"
  then have "republish env self items n1
     = (Inl JSONDecodeError, remote_persist_each env self (spec_republish_calls env before) n1)"
    using republish_stops [of before env v self dkey rest n1] by simp
  with assms show "refresh_table env self n
              = (Inl JSONDecodeError,
                 remote_persist_each env self (spec_republish_calls env before) n1)"
    by (simp add: refresh_table_def Let_def)
qed

lemma test_refresh_crawls:
  "node_crawls test_env w
     (map (\<lambda>i. (i, findNeighborsK test_env w i a)) (getRefreshIDs test_env w)) k a' = w"
  by (simp add: test_env_def)

lemma test_call_remote_persist:
  "peers w = [p] \<Longrightarrow>
   snd (call_remote_persist test_env self (Bytes dkey) v w)
     = w\<lparr>calls := calls w @ [Store (node_id p) (''#'' @ dkey) v]\<rparr>"
  by (simp add: call_remote_persist_def test_net test_digest)

text \<open>
  A refresh over one entry older than an hour whose value, \<open>v1\<close>, is not JSON: the
  refresh raises and no store call is made.
\<close>

lemma refresh_table_raises_on_unparsable:
  "iteritemsOlderThan test_env (clock test_env joined)
      (storage (test_server [(''#k'', 0, ''v1'')])) 3600 = [(''#k'', ''v1'')]
   \<and> json_loads test_env ''v1'' = None
   \<and> refresh_table test_env (test_server [(''#k'', 0, ''v1'')]) joined
       = (Inl JSONDecodeError, joined)
   \<and> calls joined = []"
  by (simp add: refresh_table_def Let_def values_to_republish_def test_env_def test_older_def
      test_server_def joined_def alone_def)

text \<open>
  The key a remote store goes under is the digest of the key \<open>_call_remote_persist\<close>
  is given.
\<close>

lemma call_remote_persist_store_key:
  assumes "findNeighbors env n (digest env k) \<noteq> []"
      and "node_crawl env n (digest env k) (findNeighbors env n (digest env k))
             (ksize self) (alpha self) = (nodes, n1)"
  shows "snd (call_remote_persist env self k v n)
           = snd (callStore_all env nodes (digest env k) v n1)"
  using assms by (simp add: call_remote_persist_def split: prod.splits)

text \<open>
  Claim C8. A server with one neighbour holds three entries: a list of two elements
  under the digest \<open>#a\<close> of the key \<open>a\<close> and a number under \<open>#b\<close>, both older than an
  hour, and a younger entry. The propagation of \<open>set\<close> for the key \<open>a\<close> stores under
  \<open>#a\<close>. The refresh makes the three calls the claim describes, one per element of the
  list and one for the number, but line 114 gives the stored digest to
  \<open>_call_remote_persist\<close>, which digests its key again (line 234): the peers are asked
  to store under \<open>##a\<close> and \<open>##b\<close>, the digests of the digests, where no lookup for the
  keys \<open>a\<close> and \<open>b\<close> goes. The entries are not republished under their keys.
\<close>

theorem refresh_table_stores_under_digest_of_digest:
  "digest test_env (Str ''a'') = ''#a''
   \<and> snd (call_remote_persist test_env
            (test_server [(''#a'', 0, ''[1, 2]''), (''#b'', 100, ''7''), (''#c'', 4000, ''7'')])
            (Str ''a'') ''1'' joined)
       = joined\<lparr>calls := [Store ''p1'' ''#a'' ''1'']\<rparr>
   \<and> digest test_env (Bytes ''#a'') = ''##a''
   \<and> iteritemsOlderThan test_env (clock test_env joined)
      (storage (test_server [(''#a'', 0, ''[1, 2]''), (''#b'', 100, ''7''), (''#c'', 4000, ''7'')]))
      3600 = [(''#a'', ''[1, 2]''), (''#b'', ''7'')]
   \<and> spec_republish_calls test_env [(''#a'', ''[1, 2]''), (''#b'', ''7'')]
       = [(''#a'', ''1''), (''#a'', ''2''), (''#b'', ''7'')]
   \<and> refresh_table test_env
        (test_server [(''#a'', 0, ''[1, 2]''), (''#b'', 100, ''7''), (''#c'', 4000, ''7'')]) joined
       = (Inr (), joined\<lparr>calls := [Store ''p1'' ''##a'' ''1'', Store ''p1'' ''##a'' ''2'',
                                   Store ''p1'' ''##b'' ''7'']\<rparr>)"
proof -
  let ?s = "test_server [(''#a'', 0, ''[1, 2]''), (''#b'', 100, ''7''), (''#c'', 4000, ''7'')]"
  let ?items = "[(''#a'', ''[1, 2]''), (''#b'', ''7'')]"
  have s: "snd (call_remote_persist test_env ?s (Str ''a'') ''1'' joined)
       = joined\<lparr>calls := [Store ''p1'' ''#a'' ''1'']\<rparr>"
    by (simp add: call_remote_persist_def test_net test_digest joined_def alone_def peer1_def)
  have n: "joined = node_crawls test_env joined
                  (map (\<lambda>i. (i, findNeighborsK test_env joined i (alpha ?s)))
                     (getRefreshIDs test_env joined))
                  (ksize ?s) (alpha ?s)"
    by (simp add: test_refresh_crawls)
  have i: "?items = iteritemsOlderThan test_env (clock test_env joined) (storage ?s) 3600"
    by (simp add: test_env_def test_older_def test_server_def joined_def alone_def)
  have p: "\<forall>item \<in> set ?items. json_loads test_env (snd item) \<noteq> None"
    by (simp add: test_env_def)
  have c: "spec_republish_calls test_env ?items
       = [(''#a'', ''1''), (''#a'', ''2''), (''#b'', ''7'')]"
    by (simp add: spec_republish_calls_def test_env_def)
  have r: "remote_persist_each test_env ?s [(''#a'', ''1''), (''#a'', ''2''), (''#b'', ''7'')] joined
       = joined\<lparr>calls := [Store ''p1'' ''##a'' ''1'', Store ''p1'' ''##a'' ''2'',
                                   Store ''p1'' ''##b'' ''7'']\<rparr>"
    by (simp add: test_call_remote_persist [of _ peer1] joined_def alone_def peer1_def)
  from refresh_table_calls [OF n i] p c r i s show ?thesis by (simp add: test_digest)
qed

section \<open>The state snapshot\<close>

text \<open>
  With a neighbour known, \<open>saveState\<close> writes the dictionary of \<open>ksize\<close>, \<open>alpha\<close>, the
  identifier of the node and the addresses of the neighbours; with none it writes
  nothing. \<open>loadState\<close> makes a server with the saved \<open>ksize\<close>, \<open>alpha\<close> and identifier,
  and leaves the outside as it is.
\<close>

lemma saveState_writes:
  "findNeighbors env n (node self) \<noteq> [] \<Longrightarrow>
   saveState env self fname n fs
     = fs(fname \<mapsto> \<lparr>snap_ksize = ksize self, snap_alpha = alpha self, snap_id = node self,
                     snap_neighbors = map (\<lambda>p. (ip p, port p))
                                         (findNeighbors env n (node self))\<rparr>)"
  by (simp add: saveState_def bootstrappableNeighbors_def Let_def)

lemma saveState_without_neighbors:
  "findNeighbors env n (node self) = [] \<Longrightarrow> saveState env self fname n fs = fs"
  by (simp add: saveState_def bootstrappableNeighbors_def)

lemma loadState_restores:
  "fs fname = Some d \<Longrightarrow> snap_id d \<noteq> [] \<Longrightarrow>
   loadState env fresh rnd fname fs n
     = (Inr \<lparr>ksize = snap_ksize d, alpha = snap_alpha d, storage = fresh, node = snap_id d\<rparr>,
        n)"
  by (simp add: loadState_def Server_init_def Let_def)

lemma loadState_outside_untouched:
  "snd (loadState env fresh rnd fname fs n) = n"
  by (simp add: loadState_def Let_def split: option.splits)

lemma test_bootstrap:
  "bootstrap test_env self [a] w
     = ([\<lparr>node_id = ''p1'', ip = fst a, port = snd a\<rparr>], w\<lparr>calls := calls w @ [Ping a]\<rparr>)"
  by (simp add: bootstrap_def bootstrap_node_def test_env_def List.map_filter_def)

text \<open>
  Claim C9. A server with the neighbour \<open>10.0.0.1:8468\<close> saves its state, and the state
  is loaded again. The snapshot holds the four entries, and the loaded server has the
  saved \<open>ksize\<close>, \<open>alpha\<close> and identifier. No ping has been sent when \<open>loadState\<close>
  returns: the coroutine of line 281 is never awaited. Awaiting \<open>bootstrap\<close> on the
  saved addresses would ping the neighbour.
\<close>

theorem loadState_drops_bootstrap:
  "saveState test_env (test_server []) ''cache'' joined (\<lambda>f. None) ''cache''
     = Some \<lparr>snap_ksize = 20, snap_alpha = 3, snap_id = ''me'',
             snap_neighbors = [(''10.0.0.1'', 8468)]\<rparr>
   \<and> loadState test_env [] ''rnd'' ''cache''
        (saveState test_env (test_server []) ''cache'' joined (\<lambda>f. None)) joined
       = (Inr (test_server []), joined)
   \<and> calls joined = []
   \<and> calls (snd (bootstrap test_env (test_server []) [(''10.0.0.1'', 8468)] joined))
       = [Ping (''10.0.0.1'', 8468)]"
proof -
  have s: "saveState test_env (test_server []) ''cache'' joined (\<lambda>f. None)
             = (\<lambda>f. None)(''cache'' \<mapsto> \<lparr>snap_ksize = 20, snap_alpha = 3, snap_id = ''me'',
                                         snap_neighbors = [(''10.0.0.1'', 8468)]\<rparr>)"
    by (simp add: saveState_def bootstrappableNeighbors_def Let_def test_net test_server_def
        joined_def alone_def peer1_def)
  have l: "loadState test_env [] ''rnd'' ''cache''
        (saveState test_env (test_server []) ''cache'' joined (\<lambda>f. None)) joined
       = (Inr (test_server []), joined)"
    unfolding s by (simp add: loadState_def Server_init_def Let_def test_server_def)
  have c: "calls joined = []" by (simp add: joined_def alone_def)
  from s l c show ?thesis by (simp add: test_bootstrap)
qed

end
